theory Spec2Isabelle
  imports Main "HOL-Library.Multiset"
begin

section \<open>JavaScript strings\<close>

text \<open>
  A string is a list of code units. HOL characters are 8 bits wide, so the model covers the
  strings whose code units lie in 0..255 (Latin-1). On that range the white space of
  \<^verbatim>\<open>String.prototype.trim\<close> and of the regular expression class \<^verbatim>\<open>\s\<close> is
  TAB, LF, VT, FF, CR, SPACE and NBSP.
\<close>

definition isSpace :: "char \<Rightarrow> bool" where
  "isSpace c = (c \<in> set [CHR 0x09, CHR 0x0A, CHR 0x0B, CHR 0x0C, CHR 0x0D, CHR '' '', CHR 0xA0])"

definition isDigit :: "char \<Rightarrow> bool" where
  "isDigit c = (c \<in> set ''0123456789'')"

text \<open>The class \<^verbatim>\<open>\w\<close>: ASCII letters, digits and the underscore.\<close>

definition isWordChar :: "char \<Rightarrow> bool" where
  "isWordChar c = (c \<in> set ''abcdefghijklmnopqrstuvwxyzABCDEFGHIJKLMNOPQRSTUVWXYZ0123456789_'')"

definition upperChars :: "char list" where
  "upperChars = ''ABCDEFGHIJKLMNOPQRSTUVWXYZ'' @
     [CHR 0xC0, CHR 0xC1, CHR 0xC2, CHR 0xC3, CHR 0xC4, CHR 0xC5, CHR 0xC6, CHR 0xC7,
      CHR 0xC8, CHR 0xC9, CHR 0xCA, CHR 0xCB, CHR 0xCC, CHR 0xCD, CHR 0xCE, CHR 0xCF,
      CHR 0xD0, CHR 0xD1, CHR 0xD2, CHR 0xD3, CHR 0xD4, CHR 0xD5, CHR 0xD6,
      CHR 0xD8, CHR 0xD9, CHR 0xDA, CHR 0xDB, CHR 0xDC, CHR 0xDD, CHR 0xDE]"

definition lowerChars :: "char list" where
  "lowerChars = ''abcdefghijklmnopqrstuvwxyz'' @
     [CHR 0xE0, CHR 0xE1, CHR 0xE2, CHR 0xE3, CHR 0xE4, CHR 0xE5, CHR 0xE6, CHR 0xE7,
      CHR 0xE8, CHR 0xE9, CHR 0xEA, CHR 0xEB, CHR 0xEC, CHR 0xED, CHR 0xEE, CHR 0xEF,
      CHR 0xF0, CHR 0xF1, CHR 0xF2, CHR 0xF3, CHR 0xF4, CHR 0xF5, CHR 0xF6,
      CHR 0xF8, CHR 0xF9, CHR 0xFA, CHR 0xFB, CHR 0xFC, CHR 0xFD, CHR 0xFE]"

definition lowerChar :: "char \<Rightarrow> char" where
  "lowerChar c = (case map_of (zip upperChars lowerChars) c of Some l \<Rightarrow> l | None \<Rightarrow> c)"

text \<open>\<^verbatim>\<open>String.prototype.toLowerCase\<close>, \<^verbatim>\<open>trim\<close>, \<^verbatim>\<open>startsWith\<close>, \<^verbatim>\<open>includes\<close>
  and \<^verbatim>\<open>Array.prototype.join\<close>.\<close>

definition toLowerCase :: "string \<Rightarrow> string" where
  "toLowerCase s = map lowerChar s"

definition trim :: "string \<Rightarrow> string" where
  "trim s = rev (dropWhile isSpace (rev (dropWhile isSpace s)))"

fun startsWith :: "string \<Rightarrow> string \<Rightarrow> bool" where
  "startsWith s [] = True"
| "startsWith [] (k # ks) = False"
| "startsWith (c # cs) (k # ks) = (c = k \<and> startsWith cs ks)"

fun includesStr :: "string \<Rightarrow> string \<Rightarrow> bool" where
  "includesStr [] k = (k = [])"
| "includesStr (c # cs) k = (startsWith (c # cs) k \<or> includesStr cs k)"

fun joinWith :: "string \<Rightarrow> string list \<Rightarrow> string" where
  "joinWith sep [] = []"
| "joinWith sep [x] = x"
| "joinWith sep (x # y # ys) = x @ sep @ joinWith sep (y # ys)"

section \<open>Regular expressions\<close>

text \<open>
  The patterns of the source use literals under the \<^verbatim>\<open>i\<close> flag, \<^verbatim>\<open>\d\<close>, \<^verbatim>\<open>\s\<close>,
  a character class, \<^verbatim>\<open>\b\<close>, \<^verbatim>\<open>^\<close>, sequence, alternation, \<^verbatim>\<open>?\<close> and \<^verbatim>\<open>+\<close>.
  \<open>CI c\<close> is the literal \<open>c\<close> (a lower-case letter or a character without case) matched
  ignoring case: an ASCII letter of the pattern matches exactly its two cases.
\<close>

datatype rx =
    Eps
  | CI char
  | Digit
  | Space
  | OneOf "char list"
  | WordB
  | Bol
  | Seq rx rx
  | Alt rx rx
  | Opt rx
  | Plus rx

text \<open>
  A position in the subject is the code unit before it (\<open>None\<close> at the start of the
  subject) and the rest of the subject.
\<close>

type_synonym pos = "char option \<times> string"

definition one :: "(char \<Rightarrow> bool) \<Rightarrow> pos \<Rightarrow> pos list" where
  "one P p = (case snd p of [] \<Rightarrow> [] | c # cs \<Rightarrow> if P c then [(Some c, cs)] else [])"

definition wordBefore :: "pos \<Rightarrow> bool" where
  "wordBefore p = (case fst p of None \<Rightarrow> False | Some c \<Rightarrow> isWordChar c)"

definition wordAfter :: "pos \<Rightarrow> bool" where
  "wordAfter p = (case snd p of [] \<Rightarrow> False | c # cs \<Rightarrow> isWordChar c)"

text \<open>
  Greedy \<^verbatim>\<open>+\<close>: after one iteration, more iterations are tried before stopping. Every
  iteration of the atoms used here consumes a code unit, so the length of the subject plus
  one bounds the number of iterations.
\<close>

primrec plusEnds :: "(pos \<Rightarrow> pos list) \<Rightarrow> nat \<Rightarrow> pos \<Rightarrow> pos list" where
  "plusEnds f 0 p = []"
| "plusEnds f (Suc n) p =
     concat (map (\<lambda>q. (if length (snd q) < length (snd p) then plusEnds f n q else []) @ [q]) (f p))"

text \<open>
  \<open>ends r p\<close> lists the positions where a match of \<open>r\<close> starting at \<open>p\<close> can end, in
  the order in which the backtracking matcher of ECMAScript tries them: the first one is
  the match.
\<close>

primrec ends :: "rx \<Rightarrow> pos \<Rightarrow> pos list" where
  "ends Eps = (\<lambda>p. [p])"
| "ends (CI c) = one (\<lambda>d. lowerChar d = c)"
| "ends Digit = one isDigit"
| "ends Space = one isSpace"
| "ends (OneOf cs) = one (\<lambda>d. d \<in> set cs)"
| "ends WordB = (\<lambda>p. if wordBefore p \<noteq> wordAfter p then [p] else [])"
| "ends Bol = (\<lambda>p. if fst p = None then [p] else [])"
| "ends (Seq a b) = (\<lambda>p. concat (map (ends b) (ends a p)))"
| "ends (Alt a b) = (\<lambda>p. ends a p @ ends b p)"
| "ends (Opt a) = (\<lambda>p. ends a p @ [p])"
| "ends (Plus a) = (\<lambda>p. plusEnds (ends a) (Suc (length (snd p))) p)"

definition matchAt :: "rx \<Rightarrow> pos \<Rightarrow> pos option" where
  "matchAt r p = (case ends r p of [] \<Rightarrow> None | q # qs \<Rightarrow> Some q)"

text \<open>
  \<^verbatim>\<open>subject.replace(/r/g, rep)\<close> for a replacement without \<^verbatim>\<open>$\<close>: matches are
  looked for from left to right, the next search starts where the last match ended, and
  after an empty match one code unit is copied.
\<close>

fun replaceFrom :: "rx \<Rightarrow> string \<Rightarrow> char option \<Rightarrow> string \<Rightarrow> string" where
  "replaceFrom r rep b [] = (case matchAt r (b, []) of None \<Rightarrow> [] | Some q \<Rightarrow> rep)"
| "replaceFrom r rep b (c # cs) =
     (case matchAt r (b, c # cs) of
        None \<Rightarrow> c # replaceFrom r rep (Some c) cs
      | Some q \<Rightarrow>
          if length (snd q) < length (c # cs) then rep @ replaceFrom r rep (fst q) (snd q)
          else rep @ c # replaceFrom r rep (Some c) cs)"

definition replaceAll :: "rx \<Rightarrow> string \<Rightarrow> string \<Rightarrow> string" where
  "replaceAll r rep s = replaceFrom r rep None s"

text \<open>
  \<^verbatim>\<open>subject.split(/r/)\<close> for a pattern without capture groups. \<open>seg\<close> is the segment
  read since the last separator; an empty match right after a separator is skipped.
\<close>

fun splitFrom :: "rx \<Rightarrow> string \<Rightarrow> char option \<Rightarrow> string \<Rightarrow> string list" where
  "splitFrom r seg b [] = [seg]"
| "splitFrom r seg b (c # cs) =
     (case matchAt r (b, c # cs) of
        None \<Rightarrow> splitFrom r (seg @ [c]) (Some c) cs
      | Some q \<Rightarrow>
          if length (snd q) < length (c # cs) then seg # splitFrom r [] (fst q) (snd q)
          else if seg = [] then splitFrom r [c] (Some c) cs
          else seg # splitFrom r [c] (Some c) cs)"

definition splitRx :: "rx \<Rightarrow> string \<Rightarrow> string list" where
  "splitRx r s =
     (if s = [] then (case matchAt r (None, []) of None \<Rightarrow> [[]] | Some q \<Rightarrow> [])
      else splitFrom r [] None s)"

text \<open>A literal word, an alternation of several patterns, and \<^verbatim>\<open>\s+\<close>.\<close>

fun lit :: "string \<Rightarrow> rx" where
  "lit [] = Eps"
| "lit [c] = CI c"
| "lit (c # d # ds) = Seq (CI c) (lit (d # ds))"

fun alts :: "rx list \<Rightarrow> rx" where
  "alts [] = Eps"
| "alts [r] = r"
| "alts (r # q # qs) = Alt r (alts (q # qs))"

fun seqs :: "rx list \<Rightarrow> rx" where
  "seqs [] = Eps"
| "seqs [r] = r"
| "seqs (r # q # qs) = Seq r (seqs (q # qs))"

definition spaces :: rx where
  "spaces = Plus Space"

section \<open>Categorization and text parsing (src/utils/categorization.ts)\<close>

definition categoryKeywords :: "(string \<times> string list) list" where
  "categoryKeywords =
    [(''produce'',
        [''tomato'', ''lettuce'', ''cucumber'', ''carrot'', ''potato'', ''onion'', ''garlic'',
         ''apple'', ''banana'', ''orange'', ''grape'', ''berry'', ''lemon'', ''lime'',
         ''avocado'', ''spinach'', ''broccoli'', ''pepper'', ''mushroom'', ''salad'',
         ''fruit'', ''vegetable'']),
     (''dairy'',
        [''milk'', ''cheese'', ''yogurt'', ''butter'', ''cream'', ''eggs'', ''ice cream'',
         ''sour cream'', ''cottage cheese'', ''mozzarella'', ''cheddar'', ''parmesan'']),
     (''meat'',
        [''chicken'', ''beef'', ''pork'', ''fish'', ''salmon'', ''tuna'', ''shrimp'',
         ''turkey'', ''ham'', ''bacon'', ''sausage'', ''steak'', ''ground beef'', ''lamb'']),
     (''bakery'',
        [''bread'', ''baguette'', ''roll'', ''bagel'', ''croissant'', ''muffin'', ''cake'',
         ''pastry'', ''donut'']),
     (''frozen'',
        [''frozen'', ''popsicle'', ''frozen pizza'', ''frozen vegetables'', ''frozen meals'']),
     (''pantry'',
        [''pasta'', ''rice'', ''flour'', ''sugar'', ''salt'', ''pepper'', ''oil'', ''vinegar'',
         ''sauce'', ''can'', ''jar'', ''cereal'', ''oatmeal'', ''beans'', ''soup'',
         ''tomato sauce'']),
     (''beverages'',
        [''water'', ''juice'', ''soda'', ''coffee'', ''tea'', ''beer'', ''wine'', ''drink'',
         ''beverage'', ''cola'']),
     (''snacks'',
        [''chips'', ''cookie'', ''candy'', ''chocolate'', ''popcorn'', ''crackers'', ''nuts'',
         ''pretzels'', ''snack'']),
     (''household'',
        [''soap'', ''shampoo'', ''toothpaste'', ''paper towel'', ''toilet paper'',
         ''detergent'', ''cleaner'', ''dish soap'', ''trash bags'', ''tissue''])]"

text \<open>
  The two nested loops of \<^verbatim>\<open>categorizeItem\<close>: the entries in the order of the object
  literal, and within an entry the first keyword that the name includes returns the
  category.
\<close>

fun scanKeywords :: "(string \<times> string list) list \<Rightarrow> string \<Rightarrow> string" where
  "scanKeywords [] normalized = ''other''"
| "scanKeywords ((category, keywords) # rest) normalized =
     (if list_ex (\<lambda>keyword. includesStr normalized keyword) keywords then category
      else scanKeywords rest normalized)"

text \<open>
  \<open>preferredCategory\<close> is \<open>None\<close> for \<^verbatim>\<open>undefined\<close> and \<^verbatim>\<open>null\<close>. The test
  \<^verbatim>\<open>if (preferredCategory)\<close> is a truthiness test: the empty string fails it.
\<close>

definition categorizeItem :: "string \<Rightarrow> string option \<Rightarrow> string" where
  "categorizeItem itemName preferredCategory =
     (case preferredCategory of
        Some p \<Rightarrow> if p \<noteq> [] then p else scanKeywords categoryKeywords (trim (toLowerCase itemName))
      | None \<Rightarrow> scanKeywords categoryKeywords (trim (toLowerCase itemName)))"

text \<open>The patterns of \<^verbatim>\<open>parseItemsFromText\<close>, in the order of the source.\<close>

definition dozenRx :: rx where
  "dozenRx = seqs [WordB, Opt (Seq (CI CHR ''a'') spaces), lit ''dozen'', spaces]"

definition containersOfRx :: rx where
  "containersOfRx =
     seqs [WordB, Plus Digit, spaces,
           alts [Seq (lit ''bottle'') (Opt (CI CHR ''s'')), Seq (lit ''can'') (Opt (CI CHR ''s'')),
                 Seq (lit ''boxe'') (Opt (CI CHR ''s'')), Seq (lit ''bag'') (Opt (CI CHR ''s'')),
                 Seq (lit ''jar'') (Opt (CI CHR ''s''))],
           spaces, lit ''of'', spaces]"

definition aContainerOfRx :: rx where
  "aContainerOfRx =
     seqs [WordB, alts [lit ''a'', lit ''an'', lit ''the''], spaces,
           alts [lit ''bottle'', lit ''can'', lit ''box'', lit ''bag'', lit ''jar''],
           spaces, lit ''of'', spaces]"

definition separatorRx :: rx where
  "separatorRx = Alt (OneOf [CHR '','', CHR 0x0A]) (seqs [spaces, lit ''and'', spaces])"

definition verbPrefixRx :: rx where
  "verbPrefixRx =
     seqs [Bol, alts [lit ''add'', lit ''get'', lit ''buy'', lit ''need'', lit ''want'',
                      lit ''purchase'', lit ''pick up'', lit ''grab''], spaces]"

definition politePrefixRx :: rx where
  "politePrefixRx =
     seqs [Bol, alts [lit ''i need'', lit ''i want'', lit (''i'' @ [CHR 0x27] @ ''m getting''),
                      lit ''im getting'', lit (''i'' @ [CHR 0x27] @ ''d like''), lit ''id like'',
                      lit ''please add'', lit ''please get''], spaces]"

definition articleRx :: rx where
  "articleRx = seqs [Bol, alts [lit ''a'', lit ''an'', lit ''the'', lit ''some''], spaces]"

text \<open>The callback of \<^verbatim>\<open>.map\<close>: what becomes of one segment.\<close>

definition cleanSegment :: "string \<Rightarrow> string" where
  "cleanSegment item =
     replaceAll articleRx [] (replaceAll politePrefixRx [] (replaceAll verbPrefixRx [] (trim item)))"

definition stripQuantities :: "string \<Rightarrow> string" where
  "stripQuantities input =
     replaceAll aContainerOfRx [] (replaceAll containersOfRx [] (replaceAll dozenRx [] input))"

text \<open>\<^verbatim>\<open>[...new Set(items)]\<close>: the first occurrence of each string, in order.\<close>

definition uniqueInOrder :: "string list \<Rightarrow> string list" where
  "uniqueInOrder items = foldl (\<lambda>seen x. if x \<in> set seen then seen else seen @ [x]) [] items"

definition parseItemsFromText :: "string \<Rightarrow> string list" where
  "parseItemsFromText input =
     (if trim input = [] then []
      else uniqueInOrder
             (filter (\<lambda>item. length item > 0)
                (map cleanSegment (splitRx separatorRx (stripQuantities input)))))"

definition sanitizeItemName :: "string \<Rightarrow> string" where
  "sanitizeItemName name = replaceAll spaces '' '' (trim name)"

section \<open>Data model (src/db)\<close>

text \<open>
  Numbers are integers: the code modelled here only stores, compares and prints them, and
  adds one to a sort order. An optional field is an \<open>option\<close>.
\<close>

record ShoppingList =
  list_id :: string
  list_name :: string
  list_createdAt :: int
  list_updatedAt :: int
  list_archived :: bool
  list_color :: "string option"

record ShoppingItem =
  item_id :: string
  item_listId :: string
  item_name :: string
  item_quantity :: int
  item_unit :: "string option"
  item_category :: string
  item_completed :: bool
  item_addedAt :: int
  item_completedAt :: "int option"
  item_barcode :: "string option"
  item_notes :: "string option"

record Category =
  cat_id :: string
  cat_name :: string
  cat_icon :: "string option"
  cat_sortOrder :: int

record Product =
  prod_barcode :: string
  prod_name :: string
  prod_category :: string
  prod_lastUsed :: int

record CategoryPreference =
  pref_itemName :: string
  pref_category :: string
  pref_learnedAt :: int

text \<open>
  \<^verbatim>\<open>Partial<BackupData>\<close>, the type at which \<^verbatim>\<open>validateBackup\<close> reads its argument:
  every field may be missing.
\<close>

record BackupData =
  bk_version :: "string option"
  bk_timestamp :: "int option"
  bk_lists :: "ShoppingList list option"
  bk_items :: "ShoppingItem list option"
  bk_customCategories :: "Category list option"
  bk_products :: "Product list option"
  bk_categoryPreferences :: "(string \<times> string) list option"
  bk_categoryOrder :: "string list option"

record BackupValidationResult =
  valid :: bool
  errors :: "string list"

datatype error = Error string | TypeError | ConstraintError

section \<open>Values of type unknown\<close>

text \<open>
  What \<^verbatim>\<open>JSON.parse\<close> can return, and \<^verbatim>\<open>undefined\<close>. Numbers are integers. An
  object is the list of its own properties, each name once.
\<close>

datatype jsval =
    JUndefined
  | JNull
  | JBool bool
  | JNum int
  | JStr string
  | JArr "jsval list"
  | JObj "(string \<times> jsval) list"

fun truthy :: "jsval \<Rightarrow> bool" where
  "truthy JUndefined = False"
| "truthy JNull = False"
| "truthy (JBool b) = b"
| "truthy (JNum n) = (n \<noteq> 0)"
| "truthy (JStr s) = (s \<noteq> [])"
| "truthy (JArr xs) = True"
| "truthy (JObj kvs) = True"

text \<open>\<^verbatim>\<open>typeof v === 'object'\<close>, \<^verbatim>\<open>typeof v === 'number'\<close>, \<^verbatim>\<open>Array.isArray(v)\<close>.\<close>

fun typeofObject :: "jsval \<Rightarrow> bool" where
  "typeofObject JNull = True"
| "typeofObject (JArr xs) = True"
| "typeofObject (JObj kvs) = True"
| "typeofObject v = False"

fun typeofNumber :: "jsval \<Rightarrow> bool" where
  "typeofNumber (JNum n) = True"
| "typeofNumber v = False"

fun isArray :: "jsval \<Rightarrow> bool" where
  "isArray (JArr xs) = True"
| "isArray v = False"

text \<open>
  Reading a property of an object or an array. None of the names read by
  \<^verbatim>\<open>validateBackup\<close> is a property of an array or of \<^verbatim>\<open>Object.prototype\<close>.
\<close>

fun getProp :: "jsval \<Rightarrow> string \<Rightarrow> jsval" where
  "getProp (JObj kvs) k = (case map_of kvs k of None \<Rightarrow> JUndefined | Some v \<Rightarrow> v)"
| "getProp v k = JUndefined"

section \<open>validateBackup (composables/useBackup)\<close>

text \<open>
  \<^verbatim>\<open>backup.version.startsWith\<close> is called on any truthy version: on a version that is
  not a string it is not a function and the call throws a TypeError.
\<close>

definition validateBackup :: "jsval \<Rightarrow> error + BackupValidationResult" where
  "validateBackup data =
     (if \<not> truthy data \<or> \<not> typeofObject data
      then Inr \<lparr>valid = False, errors = [''Backup data must be an object'']\<rparr>
      else
        let version = getProp data ''version'';
            errors1 = (if \<not> truthy version then [''Missing version field''] else []);
            errors2 = errors1 @
              (if \<not> typeofNumber (getProp data ''timestamp'')
               then [''Missing or invalid timestamp field''] else []);
            errors3 = errors2 @
              (if \<not> isArray (getProp data ''lists'')
               then [''Missing or invalid lists array''] else []);
            errors4 = errors3 @
              (if \<not> isArray (getProp data ''items'')
               then [''Missing or invalid items array''] else []);
            errors5 = errors4 @
              (if \<not> isArray (getProp data ''customCategories'')
               then [''Missing or invalid customCategories array''] else []);
            errors6 = errors5 @
              (if \<not> isArray (getProp data ''products'')
               then [''Missing or invalid products array''] else [])
        in if truthy version
           then (case version of
                   JStr v \<Rightarrow>
                     let errors7 = errors6 @
                           (if \<not> startsWith v ''1.''
                            then [''Incompatible backup version: '' @ v] else [])
                     in Inr \<lparr>valid = (length errors7 = 0), errors = errors7\<rparr>
                 | _ \<Rightarrow> Inl TypeError)
           else Inr \<lparr>valid = (length errors6 = 0), errors = errors6\<rparr>)"

text \<open>A typed snapshot as the value the program holds at run time.\<close>

definition optProp :: "string \<Rightarrow> ('a \<Rightarrow> jsval) \<Rightarrow> 'a option \<Rightarrow> (string \<times> jsval) list" where
  "optProp k enc v = (case v of None \<Rightarrow> [] | Some x \<Rightarrow> [(k, enc x)])"

definition jsOfList :: "ShoppingList \<Rightarrow> jsval" where
  "jsOfList l = JObj ([(''id'', JStr (list_id l)), (''name'', JStr (list_name l)),
     (''createdAt'', JNum (list_createdAt l)), (''updatedAt'', JNum (list_updatedAt l)),
     (''archived'', JBool (list_archived l))] @ optProp ''color'' JStr (list_color l))"

definition jsOfItem :: "ShoppingItem \<Rightarrow> jsval" where
  "jsOfItem i = JObj ([(''id'', JStr (item_id i)), (''listId'', JStr (item_listId i)),
     (''name'', JStr (item_name i)), (''quantity'', JNum (item_quantity i))] @
     optProp ''unit'' JStr (item_unit i) @
     [(''category'', JStr (item_category i)), (''completed'', JBool (item_completed i)),
      (''addedAt'', JNum (item_addedAt i))] @
     optProp ''completedAt'' JNum (item_completedAt i) @
     optProp ''barcode'' JStr (item_barcode i) @ optProp ''notes'' JStr (item_notes i))"

definition jsOfCategory :: "Category \<Rightarrow> jsval" where
  "jsOfCategory c = JObj ([(''id'', JStr (cat_id c)), (''name'', JStr (cat_name c))] @
     optProp ''icon'' JStr (cat_icon c) @ [(''sortOrder'', JNum (cat_sortOrder c))])"

definition jsOfProduct :: "Product \<Rightarrow> jsval" where
  "jsOfProduct p = JObj [(''barcode'', JStr (prod_barcode p)), (''name'', JStr (prod_name p)),
     (''category'', JStr (prod_category p)), (''lastUsed'', JNum (prod_lastUsed p))]"

definition jsOfBackup :: "BackupData \<Rightarrow> jsval" where
  "jsOfBackup b = JObj (
     optProp ''version'' JStr (bk_version b) @
     optProp ''timestamp'' JNum (bk_timestamp b) @
     optProp ''lists'' (\<lambda>xs. JArr (map jsOfList xs)) (bk_lists b) @
     optProp ''items'' (\<lambda>xs. JArr (map jsOfItem xs)) (bk_items b) @
     optProp ''customCategories'' (\<lambda>xs. JArr (map jsOfCategory xs)) (bk_customCategories b) @
     optProp ''products'' (\<lambda>xs. JArr (map jsOfProduct xs)) (bk_products b) @
     optProp ''categoryPreferences'' (\<lambda>kvs. JObj (map (\<lambda>(k, v). (k, JStr v)) kvs))
       (bk_categoryPreferences b) @
     optProp ''categoryOrder'' (\<lambda>xs. JArr (map JStr xs)) (bk_categoryOrder b))"

section \<open>The state: IndexedDB, localStorage, the Pinia stores\<close>

text \<open>
  \<open>db_\<close>: the tables of the Dexie database, each a list of rows with one row per key.
  The list keeps the rows in the order in which they were added, and the operations that
  load a table into a store copy them in that order, where \<^verbatim>\<open>toArray()\<close> returns them
  in the order of their keys: the order of the rows of a table or of a loaded store is
  not that of the program, and the theorems speak of these rows as a multiset or a set.
  \<open>ls_\<close>: the two keys of localStorage that the code reads and writes, as the values
  that were serialized into them. \<open>st_\<close>: the reactive state of the stores; the
  \<^verbatim>\<open>loading\<close> and \<^verbatim>\<open>error\<close> flags are left out. \<^verbatim>\<open>Date.now()\<close> and \<^verbatim>\<open>uuidv4()\<close>
  read the next value of a sequence that the state carries. Storage operations succeed
  unless a key that exists is added again.
\<close>

record world =
  db_lists :: "ShoppingList list"
  db_items :: "ShoppingItem list"
  db_categories :: "Category list"
  db_products :: "Product list"
  db_categoryPreferences :: "CategoryPreference list"
  ls_categoryPreferences :: "(string \<times> string) list option"
  ls_categoryOrder :: "string list option"
  st_lists :: "ShoppingList list"
  st_items :: "string \<Rightarrow> ShoppingItem list option"
  st_customCategories :: "Category list"
  st_categoryOrder :: "string list"
  st_products :: "Product list"
  st_preferences :: "string \<Rightarrow> string option"
  clock :: "nat \<Rightarrow> int"
  clock_reads :: nat
  uuids :: "nat \<Rightarrow> string"
  uuid_calls :: nat

definition dateNow :: "world \<Rightarrow> int \<times> world" where
  "dateNow w = (clock w (clock_reads w), w\<lparr>clock_reads := Suc (clock_reads w)\<rparr>)"

definition uuidv4 :: "world \<Rightarrow> string \<times> world" where
  "uuidv4 w = (uuids w (uuid_calls w), w\<lparr>uuid_calls := Suc (uuid_calls w)\<rparr>)"

text \<open>Dexie tables: \<^verbatim>\<open>add\<close>, \<^verbatim>\<open>put\<close>, \<^verbatim>\<open>update\<close>, \<^verbatim>\<open>delete\<close>, \<^verbatim>\<open>get\<close>.\<close>

definition tblAdd :: "('r \<Rightarrow> string) \<Rightarrow> 'r \<Rightarrow> 'r list \<Rightarrow> error + 'r list" where
  "tblAdd key r t = (if key r \<in> set (map key t) then Inl ConstraintError else Inr (t @ [r]))"

definition tblPut :: "('r \<Rightarrow> string) \<Rightarrow> 'r \<Rightarrow> 'r list \<Rightarrow> 'r list" where
  "tblPut key r t =
     (if key r \<in> set (map key t) then map (\<lambda>x. if key x = key r then r else x) t else t @ [r])"

definition tblUpdate :: "('r \<Rightarrow> string) \<Rightarrow> string \<Rightarrow> ('r \<Rightarrow> 'r) \<Rightarrow> 'r list \<Rightarrow> 'r list" where
  "tblUpdate key k f t = map (\<lambda>x. if key x = k then f x else x) t"

definition tblDelete :: "('r \<Rightarrow> string) \<Rightarrow> string \<Rightarrow> 'r list \<Rightarrow> 'r list" where
  "tblDelete key k t = filter (\<lambda>x. key x \<noteq> k) t"

definition tblGet :: "('r \<Rightarrow> string) \<Rightarrow> string \<Rightarrow> 'r list \<Rightarrow> 'r option" where
  "tblGet key k t = find (\<lambda>x. key x = k) t"

text \<open>An array element found with \<^verbatim>\<open>find\<close> or \<^verbatim>\<open>findIndex\<close> and changed in place.\<close>

fun updFirst :: "('a \<Rightarrow> bool) \<Rightarrow> ('a \<Rightarrow> 'a) \<Rightarrow> 'a list \<Rightarrow> 'a list" where
  "updFirst P f [] = []"
| "updFirst P f (x # xs) = (if P x then f x # xs else x # updFirst P f xs)"

text \<open>A number in a template literal.\<close>

definition digitChar :: "nat \<Rightarrow> char" where
  "digitChar d = ''0123456789'' ! d"

fun showNat :: "nat \<Rightarrow> string" where
  "showNat n = (if n < 10 then [digitChar n] else showNat (n div 10) @ [digitChar (n mod 10)])"

definition showInt :: "int \<Rightarrow> string" where
  "showInt i = (if i < 0 then ''-'' @ showNat (nat (- i)) else showNat (nat i))"

text \<open>A step that can throw, followed by the rest of the \<^verbatim>\<open>try\<close> block.\<close>

definition andThen ::
  "world \<times> (error + 'a) \<Rightarrow> ('a \<Rightarrow> world \<Rightarrow> world \<times> (error + 'b)) \<Rightarrow> world \<times> (error + 'b)" where
  "andThen r f = (case r of (w, Inl e) \<Rightarrow> (w, Inl e) | (w, Inr a) \<Rightarrow> f a w)"

text \<open>A \<^verbatim>\<open>for ... of\<close> loop with an awaited body: the first error leaves the loop.\<close>

fun forEach ::
  "('a \<Rightarrow> world \<Rightarrow> world \<times> (error + unit)) \<Rightarrow> 'a list \<Rightarrow> world \<Rightarrow> world \<times> (error + unit)" where
  "forEach body [] w = (w, Inr ())"
| "forEach body (x # xs) w =
     (case body x w of (w', Inl e) \<Rightarrow> (w', Inl e) | (w', Inr u) \<Rightarrow> forEach body xs w')"

section \<open>The lists store (stores/lists over composables/useDB)\<close>

definition listsDB_create :: "string \<Rightarrow> string option \<Rightarrow> world \<Rightarrow> world \<times> (error + ShoppingList)" where
  "listsDB_create name color w =
     (let (newId, w1) = uuidv4 w;
          (createdAt, w2) = dateNow w1;
          (updatedAt, w3) = dateNow w2;
          list = \<lparr>list_id = newId, list_name = name, list_createdAt = createdAt,
                  list_updatedAt = updatedAt, list_archived = False, list_color = color\<rparr>
      in case tblAdd list_id list (db_lists w3) of
           Inl e \<Rightarrow> (w3, Inl e)
         | Inr t \<Rightarrow> (w3\<lparr>db_lists := t\<rparr>, Inr list))"

definition createList :: "string \<Rightarrow> string option \<Rightarrow> world \<Rightarrow> world \<times> (error + ShoppingList)" where
  "createList name color w =
     andThen (listsDB_create name color w)
       (\<lambda>list w'. (w'\<lparr>st_lists := st_lists w' @ [list]\<rparr>, Inr list))"

definition listsDB_archive :: "string \<Rightarrow> world \<Rightarrow> world" where
  "listsDB_archive listId w =
     (let (now, w1) = dateNow w
      in w1\<lparr>db_lists :=
              tblUpdate list_id listId (\<lambda>l. l\<lparr>list_archived := True, list_updatedAt := now\<rparr>)
                (db_lists w1)\<rparr>)"

definition archiveList :: "string \<Rightarrow> world \<Rightarrow> world" where
  "archiveList listId w =
     (let w1 = listsDB_archive listId w
      in case find (\<lambda>l. list_id l = listId) (st_lists w1) of
           None \<Rightarrow> w1
         | Some list \<Rightarrow>
             let (now, w2) = dateNow w1
             in w2\<lparr>st_lists :=
                     updFirst (\<lambda>l. list_id l = listId)
                       (\<lambda>l. l\<lparr>list_archived := True, list_updatedAt := now\<rparr>) (st_lists w2)\<rparr>)"

text \<open>\<^verbatim>\<open>listsDB.remove\<close> deletes the list and every item of the list.\<close>

definition deleteList :: "string \<Rightarrow> world \<Rightarrow> world" where
  "deleteList listId w =
     w\<lparr>db_lists := tblDelete list_id listId (db_lists w),
       db_items := filter (\<lambda>i. item_listId i \<noteq> listId) (db_items w),
       st_lists := filter (\<lambda>l. list_id l \<noteq> listId) (st_lists w)\<rparr>"

definition loadLists :: "world \<Rightarrow> world" where
  "loadLists w = w\<lparr>st_lists := db_lists w\<rparr>"

section \<open>The items store (stores/items over composables/useDB)\<close>

definition getItemsByListId :: "string \<Rightarrow> world \<Rightarrow> ShoppingItem list" where
  "getItemsByListId listId w = (case st_items w listId of None \<Rightarrow> [] | Some xs \<Rightarrow> xs)"

definition itemsDB_create ::
  "string \<Rightarrow> string \<Rightarrow> string \<Rightarrow> int \<Rightarrow> string option \<Rightarrow> world \<Rightarrow> world \<times> (error + ShoppingItem)" where
  "itemsDB_create listId name category quantity unit w =
     (let (newId, w1) = uuidv4 w;
          (addedAt, w2) = dateNow w1;
          item = \<lparr>item_id = newId, item_listId = listId, item_name = name,
                  item_quantity = quantity, item_unit = unit, item_category = category,
                  item_completed = False, item_addedAt = addedAt, item_completedAt = None,
                  item_barcode = None, item_notes = None\<rparr>
      in case tblAdd item_id item (db_items w2) of
           Inl e \<Rightarrow> (w2, Inl e)
         | Inr t \<Rightarrow> (w2\<lparr>db_items := t\<rparr>, Inr item))"

text \<open>
  \<^verbatim>\<open>createItem(listId, name, category, quantity = 1, unit?)\<close>: a caller that leaves the
  last two arguments out passes \<open>1\<close> and \<open>None\<close>.
\<close>

definition createItem ::
  "string \<Rightarrow> string \<Rightarrow> string \<Rightarrow> int \<Rightarrow> string option \<Rightarrow> world \<Rightarrow> world \<times> (error + ShoppingItem)" where
  "createItem listId name category quantity unit w =
     andThen (itemsDB_create listId name category quantity unit w)
       (\<lambda>item w'. (w'\<lparr>st_items := (st_items w')(listId \<mapsto> getItemsByListId listId w' @ [item])\<rparr>,
                   Inr item))"

definition itemsDB_toggleComplete :: "string \<Rightarrow> world \<Rightarrow> world" where
  "itemsDB_toggleComplete itemId w =
     (case tblGet item_id itemId (db_items w) of
        None \<Rightarrow> w
      | Some item \<Rightarrow>
          if \<not> item_completed item
          then (let (now, w1) = dateNow w
                in w1\<lparr>db_items :=
                        tblUpdate item_id itemId
                          (\<lambda>i. i\<lparr>item_completed := True, item_completedAt := Some now\<rparr>)
                          (db_items w1)\<rparr>)
          else w\<lparr>db_items :=
                   tblUpdate item_id itemId
                     (\<lambda>i. i\<lparr>item_completed := False, item_completedAt := None\<rparr>) (db_items w)\<rparr>)"

definition toggleItemComplete :: "string \<Rightarrow> string \<Rightarrow> world \<Rightarrow> world" where
  "toggleItemComplete listId itemId w =
     (let w1 = itemsDB_toggleComplete itemId w
      in case find (\<lambda>i. item_id i = itemId) (getItemsByListId listId w1) of
           None \<Rightarrow> w1
         | Some item \<Rightarrow>
             if \<not> item_completed item
             then (let (now, w2) = dateNow w1
                   in w2\<lparr>st_items := (st_items w2)(listId \<mapsto>
                           updFirst (\<lambda>i. item_id i = itemId)
                             (\<lambda>i. i\<lparr>item_completed := True, item_completedAt := Some now\<rparr>)
                             (getItemsByListId listId w2))\<rparr>)
             else w1\<lparr>st_items := (st_items w1)(listId \<mapsto>
                        updFirst (\<lambda>i. item_id i = itemId)
                          (\<lambda>i. i\<lparr>item_completed := False, item_completedAt := None\<rparr>)
                          (getItemsByListId listId w1))\<rparr>)"

text \<open>\<^verbatim>\<open>normalizeItemName\<close> of the preferences store; the items code writes it out.\<close>

definition normalizeItemName :: "string \<Rightarrow> string" where
  "normalizeItemName name = trim (toLowerCase name)"

text \<open>
  \<^verbatim>\<open>updates: Partial<ShoppingItem>\<close> is modelled by what \<^verbatim>\<open>Object.assign(item, updates)\<close>
  does to an item. The database is updated row by row, by id, for the rows whose
  normalized name is the given one.
\<close>

definition itemsDB_updateByName ::
  "string \<Rightarrow> (ShoppingItem \<Rightarrow> ShoppingItem) \<Rightarrow> world \<Rightarrow> world \<times> nat" where
  "itemsDB_updateByName itemName updates w =
     (let normalizedName = trim (toLowerCase itemName);
          itemsToUpdate =
            filter (\<lambda>item. trim (toLowerCase (item_name item)) = normalizedName) (db_items w)
      in (w\<lparr>db_items :=
              fold (\<lambda>item t. tblUpdate item_id (item_id item) updates t) itemsToUpdate (db_items w)\<rparr>,
          length itemsToUpdate))"

definition updateItemsByName ::
  "string \<Rightarrow> (ShoppingItem \<Rightarrow> ShoppingItem) \<Rightarrow> world \<Rightarrow> world \<times> nat" where
  "updateItemsByName itemName updates w =
     (let (w1, count) = itemsDB_updateByName itemName updates w;
          normalizedName = trim (toLowerCase itemName)
      in (w1\<lparr>st_items := (\<lambda>listId.
                map_option
                  (map (\<lambda>item. if trim (toLowerCase (item_name item)) = normalizedName
                               then updates item else item))
                  (st_items w1 listId))\<rparr>,
          count))"

section \<open>The products store (stores/products)\<close>

definition clearProducts :: "world \<Rightarrow> world" where
  "clearProducts w = w\<lparr>db_products := [], st_products := []\<rparr>"

definition saveProduct :: "string \<Rightarrow> string \<Rightarrow> string \<Rightarrow> world \<Rightarrow> world \<times> Product" where
  "saveProduct barcode name category w =
     (let (now, w1) = dateNow w;
          newProduct = \<lparr>prod_barcode = barcode, prod_name = name, prod_category = category,
                        prod_lastUsed = now\<rparr>
      in (w1\<lparr>db_products := tblPut prod_barcode newProduct (db_products w1),
              st_products :=
                (if list_ex (\<lambda>p. prod_barcode p = barcode) (st_products w1)
                 then updFirst (\<lambda>p. prod_barcode p = barcode) (\<lambda>p. newProduct) (st_products w1)
                 else st_products w1 @ [newProduct])\<rparr>,
          newProduct))"

definition loadProducts :: "world \<Rightarrow> world" where
  "loadProducts w = w\<lparr>st_products := db_products w\<rparr>"

section \<open>The categories store (stores/categories, constants/categories)\<close>

text \<open>Icons are emoji; the code only passes them on. They are written as UTF-8 bytes.\<close>

definition boxIcon :: string where
  "boxIcon = [CHR 0xF0, CHR 0x9F, CHR 0x93, CHR 0xA6]"

definition DEFAULT_CATEGORIES :: "Category list" where
  "DEFAULT_CATEGORIES =
    [\<lparr>cat_id = ''produce'', cat_name = ''Produce'',
       cat_icon = Some [CHR 0xF0, CHR 0x9F, CHR 0xA5, CHR 0xAC], cat_sortOrder = 1\<rparr>,
     \<lparr>cat_id = ''dairy'', cat_name = ''Dairy'',
       cat_icon = Some [CHR 0xF0, CHR 0x9F, CHR 0xA5, CHR 0x9B], cat_sortOrder = 2\<rparr>,
     \<lparr>cat_id = ''meat'', cat_name = ''Meat & Seafood'',
       cat_icon = Some [CHR 0xF0, CHR 0x9F, CHR 0xA5, CHR 0xA9], cat_sortOrder = 3\<rparr>,
     \<lparr>cat_id = ''bakery'', cat_name = ''Bakery'',
       cat_icon = Some [CHR 0xF0, CHR 0x9F, CHR 0x8D, CHR 0x9E], cat_sortOrder = 4\<rparr>,
     \<lparr>cat_id = ''frozen'', cat_name = ''Frozen Foods'',
       cat_icon = Some [CHR 0xF0, CHR 0x9F, CHR 0xA7, CHR 0x8A], cat_sortOrder = 5\<rparr>,
     \<lparr>cat_id = ''pantry'', cat_name = ''Pantry'',
       cat_icon = Some [CHR 0xF0, CHR 0x9F, CHR 0xA5, CHR 0xAB], cat_sortOrder = 6\<rparr>,
     \<lparr>cat_id = ''beverages'', cat_name = ''Beverages'',
       cat_icon = Some [CHR 0xF0, CHR 0x9F, CHR 0xA5, CHR 0xA4], cat_sortOrder = 7\<rparr>,
     \<lparr>cat_id = ''snacks'', cat_name = ''Snacks'',
       cat_icon = Some [CHR 0xF0, CHR 0x9F, CHR 0x8D, CHR 0xAA], cat_sortOrder = 8\<rparr>,
     \<lparr>cat_id = ''household'', cat_name = ''Household'',
       cat_icon = Some [CHR 0xF0, CHR 0x9F, CHR 0xA7, CHR 0xB9], cat_sortOrder = 9\<rparr>,
     \<lparr>cat_id = ''other'', cat_name = ''Other'',
       cat_icon = Some boxIcon, cat_sortOrder = 10\<rparr>]"

definition allCategories :: "world \<Rightarrow> Category list" where
  "allCategories w = DEFAULT_CATEGORIES @ st_customCategories w"

text \<open>The id that \<^verbatim>\<open>createCategory\<close> builds from the name and the time.\<close>

definition customCategoryId :: "string \<Rightarrow> int \<Rightarrow> string" where
  "customCategoryId name now =
     ''custom_'' @ replaceAll spaces ''_'' (toLowerCase name) @ ''_'' @ showInt now"

definition createCategory :: "string \<Rightarrow> string \<Rightarrow> world \<Rightarrow> world \<times> (error + Category)" where
  "createCategory name icon w =
     (let (now, w1) = dateNow w;
          newId = customCategoryId name now;
          maxSortOrder =
            foldr max (map cat_sortOrder (allCategories w1)) (int (length DEFAULT_CATEGORIES));
          category = \<lparr>cat_id = newId, cat_name = name, cat_icon = Some icon,
                      cat_sortOrder = maxSortOrder + 1\<rparr>
      in case tblAdd cat_id category (db_categories w1) of
           Inl e \<Rightarrow> (w1, Inl e)
         | Inr t \<Rightarrow>
             (w1\<lparr>db_categories := t,
                 st_customCategories := st_customCategories w1 @ [category]\<rparr>,
              Inr category))"

definition deleteCategory :: "string \<Rightarrow> world \<Rightarrow> world" where
  "deleteCategory categoryId w =
     w\<lparr>db_categories := tblDelete cat_id categoryId (db_categories w),
       st_customCategories := filter (\<lambda>c. cat_id c \<noteq> categoryId) (st_customCategories w)\<rparr>"

definition saveCategoryOrder :: "string list \<Rightarrow> world \<Rightarrow> world" where
  "saveCategoryOrder newOrder w =
     w\<lparr>st_categoryOrder := newOrder, ls_categoryOrder := Some newOrder\<rparr>"

text \<open>
  \<^verbatim>\<open>loadCustomCategories\<close> also reads the saved order: an order that is stored, even
  an empty one, replaces the order in memory. The key is written by
  \<^verbatim>\<open>saveCategoryOrder\<close> only, as the JSON text of an array of strings, and the state
  holds that array; the \<^verbatim>\<open>catch\<close> branch for a text that does not parse, which sets
  the order in memory to the empty list, has no counterpart here.
\<close>

definition loadCustomCategories :: "world \<Rightarrow> world" where
  "loadCustomCategories w =
     (let w1 = w\<lparr>st_customCategories := sort_key cat_sortOrder (db_categories w)\<rparr>
      in case ls_categoryOrder w1 of
           None \<Rightarrow> w1
         | Some savedOrder \<Rightarrow> w1\<lparr>st_categoryOrder := savedOrder\<rparr>)"

section \<open>The preferences store and the category change (stores/preferences, composables/useListCategories)\<close>

definition getPreferredCategory :: "string \<Rightarrow> world \<Rightarrow> string option" where
  "getPreferredCategory itemName w =
     (case st_preferences w (normalizeItemName itemName) of
        None \<Rightarrow> None
      | Some c \<Rightarrow> if c \<noteq> [] then Some c else None)"

definition savePreference :: "string \<Rightarrow> string \<Rightarrow> world \<Rightarrow> world" where
  "savePreference itemName category w =
     (let normalized = normalizeItemName itemName;
          (now, w1) = dateNow w;
          preference = \<lparr>pref_itemName = normalized, pref_category = category,
                        pref_learnedAt = now\<rparr>
      in w1\<lparr>db_categoryPreferences :=
              tblPut pref_itemName preference (db_categoryPreferences w1),
            st_preferences := (st_preferences w1)(normalized \<mapsto> category)\<rparr>)"

text \<open>
  \<^verbatim>\<open>handleChangeCategory\<close> of the view of list \<open>listId\<close>. The toast it shows at the end
  is not part of the state.
\<close>

definition handleChangeCategory :: "string \<Rightarrow> string \<Rightarrow> string \<Rightarrow> world \<Rightarrow> world" where
  "handleChangeCategory listId itemId newCategory w =
     (case find (\<lambda>i. item_id i = itemId) (getItemsByListId listId w) of
        None \<Rightarrow> w
      | Some item \<Rightarrow>
          let w1 = savePreference (item_name item) newCategory w;
              (w2, count) =
                updateItemsByName (item_name item) (\<lambda>i. i\<lparr>item_category := newCategory\<rparr>) w1
          in w2)"

section \<open>importBackup (composables/useBackup)\<close>

text \<open>The destructive phase of an import that does not merge.\<close>

definition clearExisting :: "world \<Rightarrow> world" where
  "clearExisting w =
     (let listIds = map list_id (st_lists w);
          w1 = fold deleteList listIds w;
          w2 = clearProducts w1;
          categoryIds = map cat_id (st_customCategories w2)
      in fold deleteCategory categoryIds w2)"

text \<open>The bodies of the three restore loops.\<close>

definition restoreCategory :: "Category \<Rightarrow> world \<Rightarrow> world \<times> (error + unit)" where
  "restoreCategory category w =
     andThen
       (createCategory (cat_name category)
          (case cat_icon category of
             None \<Rightarrow> boxIcon
           | Some icon \<Rightarrow> if icon \<noteq> [] then icon else boxIcon) w)
       (\<lambda>created w'. (w', Inr ()))"

definition restoreProduct :: "Product \<Rightarrow> world \<Rightarrow> world \<times> (error + unit)" where
  "restoreProduct product w =
     (fst (saveProduct (prod_barcode product) (prod_name product) (prod_category product) w),
      Inr ())"

definition restoreItem :: "string \<Rightarrow> ShoppingItem \<Rightarrow> world \<Rightarrow> world \<times> (error + unit)" where
  "restoreItem newListId item w =
     andThen (createItem newListId (item_name item) (item_category item) 1 None w)
       (\<lambda>newItem w'.
          (if item_completed item then toggleItemComplete newListId (item_id newItem) w' else w',
           Inr ()))"

definition restoreList :: "ShoppingItem list option \<Rightarrow> ShoppingList \<Rightarrow> world \<Rightarrow> world \<times> (error + unit)" where
  "restoreList allItems list w =
     andThen (createList (list_name list) (list_color list) w)
       (\<lambda>newList w'.
          let w2 = (if list_archived list then archiveList (list_id newList) w' else w')
          in case allItems of
               None \<Rightarrow> (w2, Inl TypeError)
             | Some its \<Rightarrow>
                 forEach (restoreItem (list_id newList))
                   (filter (\<lambda>item. item_listId item = list_id list) its) w2)"

text \<open>
  What follows the loops: the preference map and a non-empty category order are written,
  and the stores are loaded again.
\<close>

definition restoreSettings :: "BackupData \<Rightarrow> world \<Rightarrow> world" where
  "restoreSettings backupData w =
     (let w1 = (case bk_categoryPreferences backupData of
                  None \<Rightarrow> w
                | Some prefs \<Rightarrow> w\<lparr>ls_categoryPreferences := Some prefs\<rparr>);
          w2 = (case bk_categoryOrder backupData of
                  None \<Rightarrow> w1
                | Some order \<Rightarrow> if length order > 0 then saveCategoryOrder order w1 else w1)
      in loadCustomCategories (loadProducts (loadLists w2)))"

text \<open>
  A loop over a field that is missing throws a TypeError; validation excludes it for the
  four arrays.
\<close>

definition restoreAll :: "BackupData \<Rightarrow> world \<Rightarrow> world \<times> (error + unit)" where
  "restoreAll backupData w =
     (case bk_customCategories backupData of
        None \<Rightarrow> (w, Inl TypeError)
      | Some categories \<Rightarrow>
          andThen (forEach restoreCategory categories w)
            (\<lambda>u w2.
               case bk_products backupData of
                 None \<Rightarrow> (w2, Inl TypeError)
               | Some products \<Rightarrow>
                   andThen (forEach restoreProduct products w2)
                     (\<lambda>u w3.
                        case bk_lists backupData of
                          None \<Rightarrow> (w3, Inl TypeError)
                        | Some snapshotLists \<Rightarrow>
                            andThen (forEach (restoreList (bk_items backupData)) snapshotLists w3)
                              (\<lambda>u w4. (restoreSettings backupData w4, Inr ())))))"

definition importBackup :: "BackupData \<Rightarrow> bool \<Rightarrow> world \<Rightarrow> world \<times> (error + unit)" where
  "importBackup backupData merge w =
     (case validateBackup (jsOfBackup backupData) of
        Inl e \<Rightarrow> (w, Inl e)
      | Inr validation \<Rightarrow>
          if \<not> valid validation
          then (w, Inl (Error (''Invalid backup: '' @ joinWith '', '' (errors validation))))
          else restoreAll backupData (if \<not> merge then clearExisting w else w))"

section \<open>Predicates used to state the properties\<close>

text \<open>
  \<open>hasMatch r s\<close>: the pattern \<open>r\<close> matches somewhere in \<open>s\<close> (what
  \<^verbatim>\<open>/r/.test(s)\<close> returns). \<open>plainName s\<close>: none of the patterns of
  \<^verbatim>\<open>parseItemsFromText\<close> matches, so \<open>s\<close> has no separator, no quantity phrase and
  no prefix that would be stripped. \<open>tightWord k\<close>: \<open>k\<close> is not empty and neither starts
  nor ends with white space. \<open>singleSpaced t\<close>: every white space character of \<open>t\<close> is
  a space that is not followed by white space.
\<close>

fun matchesFrom :: "rx \<Rightarrow> char option \<Rightarrow> string \<Rightarrow> bool" where
  "matchesFrom r b [] = (matchAt r (b, []) \<noteq> None)"
| "matchesFrom r b (c # cs) = (matchAt r (b, c # cs) \<noteq> None \<or> matchesFrom r (Some c) cs)"

definition hasMatch :: "rx \<Rightarrow> string \<Rightarrow> bool" where
  "hasMatch r s = matchesFrom r None s"

definition plainName :: "string \<Rightarrow> bool" where
  "plainName s =
     (\<not> hasMatch separatorRx s \<and> \<not> hasMatch dozenRx s \<and> \<not> hasMatch containersOfRx s \<and>
      \<not> hasMatch aContainerOfRx s \<and> \<not> hasMatch verbPrefixRx (trim s) \<and>
      \<not> hasMatch politePrefixRx (trim s) \<and> \<not> hasMatch articleRx (trim s))"

definition tightWord :: "string \<Rightarrow> bool" where
  "tightWord k = (k \<noteq> [] \<and> \<not> isSpace (hd k) \<and> \<not> isSpace (last k))"

fun singleSpaced :: "string \<Rightarrow> bool" where
  "singleSpaced [] = True"
| "singleSpaced [c] = (isSpace c \<longrightarrow> c = CHR '' '')"
| "singleSpaced (c # d # ds) = ((isSpace c \<longrightarrow> c = CHR '' '' \<and> \<not> isSpace d) \<and> singleSpaced (d # ds))"

section \<open>Views of the state used to state the properties\<close>

text \<open>The saved category order, in localStorage and in the store.\<close>

definition orderOf :: "world \<Rightarrow> string list option \<times> string list" where
  "orderOf w = (ls_categoryOrder w, st_categoryOrder w)"

text \<open>
  What an import is to carry over: of an item its name, category, completed flag and
  quantity; of a list its name, color and archived flag; of a category its id and name.
\<close>

definition itemView :: "ShoppingItem \<Rightarrow> string \<times> string \<times> bool \<times> int" where
  "itemView i = (item_name i, item_category i, item_completed i, item_quantity i)"

definition listView :: "ShoppingList \<Rightarrow> string \<times> string option \<times> bool" where
  "listView l = (list_name l, list_color l, list_archived l)"

definition categoryView :: "Category \<Rightarrow> string \<times> string" where
  "categoryView c = (cat_id c, cat_name c)"

text \<open>
  The rows that the destructive phase leaves in the database: all of them when merging;
  otherwise the lists that are not in the lists store, their items, and the custom
  categories that are not in the categories store.
\<close>

definition keptLists :: "bool \<Rightarrow> world \<Rightarrow> ShoppingList list" where
  "keptLists merge w =
     (if merge then db_lists w
      else filter (\<lambda>l. list_id l \<notin> set (map list_id (st_lists w))) (db_lists w))"

definition keptItems :: "bool \<Rightarrow> world \<Rightarrow> ShoppingItem list" where
  "keptItems merge w =
     (if merge then db_items w
      else filter (\<lambda>i. item_listId i \<notin> set (map list_id (st_lists w))) (db_items w))"

definition keptCategories :: "bool \<Rightarrow> world \<Rightarrow> Category list" where
  "keptCategories merge w =
     (if merge then db_categories w
      else filter (\<lambda>c. cat_id c \<notin> set (map cat_id (st_customCategories w))) (db_categories w))"

text \<open>
  What the restore loops create, as views. For each list of the snapshot, in order, its
  view, and for each item of the snapshot with the id of that list the name, the category
  and the completed flag of the item with the quantity 1. For the \<open>k\<close>-th custom category
  of the snapshot the id built from its name and the \<open>k\<close>-th reading of the clock, and its
  name.
\<close>

definition restoredItemViews ::
  "ShoppingList list \<Rightarrow> ShoppingItem list \<Rightarrow> (string \<times> string \<times> bool \<times> int) list" where
  "restoredItemViews snapshotLists snapshotItems =
     concat (map (\<lambda>l. map (\<lambda>i. (item_name i, item_category i, item_completed i, 1))
                         (filter (\<lambda>i. item_listId i = list_id l) snapshotItems))
                 snapshotLists)"

fun regenerated :: "(nat \<Rightarrow> int) \<Rightarrow> nat \<Rightarrow> Category list \<Rightarrow> (string \<times> string) list" where
  "regenerated clk k [] = []"
| "regenerated clk k (c # cs) =
     (customCategoryId (cat_name c) (clk k), cat_name c) # regenerated clk (Suc k) cs"

section \<open>Example states and snapshots\<close>

text \<open>
  \<open>emptyWorld\<close>: nothing stored, the clock at 2000, the ids uuid-0, uuid-1, ...
  \<open>spicesBackup\<close>: one archived list with one completed item, three of it, in a custom
  category. \<open>spicesWorld\<close>: the state that \<open>spicesBackup\<close> is an export of.
\<close>

definition emptyWorld :: world where
  "emptyWorld =
     \<lparr>db_lists = [], db_items = [], db_categories = [], db_products = [],
      db_categoryPreferences = [], ls_categoryPreferences = None, ls_categoryOrder = None,
      st_lists = [], st_items = Map.empty, st_customCategories = [], st_categoryOrder = [],
      st_products = [], st_preferences = Map.empty,
      clock = (\<lambda>n. 2000 + int n), clock_reads = 0,
      uuids = (\<lambda>n. ''uuid-'' @ showNat n), uuid_calls = 0\<rparr>"

definition spicesList :: ShoppingList where
  "spicesList =
     \<lparr>list_id = ''L1'', list_name = ''Weekly'', list_createdAt = 1001, list_updatedAt = 1002,
      list_archived = True, list_color = Some ''red''\<rparr>"

definition spicesItem :: ShoppingItem where
  "spicesItem =
     \<lparr>item_id = ''I1'', item_listId = ''L1'', item_name = ''Saffron'', item_quantity = 3,
      item_unit = None, item_category = ''custom_spices_1000'', item_completed = True,
      item_addedAt = 1003, item_completedAt = Some 1004, item_barcode = None,
      item_notes = None\<rparr>"

definition spicesCategory :: Category where
  "spicesCategory =
     \<lparr>cat_id = ''custom_spices_1000'', cat_name = ''Spices'', cat_icon = None,
      cat_sortOrder = 11\<rparr>"

definition spicesBackup :: BackupData where
  "spicesBackup =
     \<lparr>bk_version = Some ''1.0.0'', bk_timestamp = Some 1500,
      bk_lists = Some [spicesList], bk_items = Some [spicesItem],
      bk_customCategories = Some [spicesCategory], bk_products = Some [],
      bk_categoryPreferences = Some [(''milk'', ''beverages'')],
      bk_categoryOrder = Some []\<rparr>"

definition spicesWorld :: world where
  "spicesWorld =
     emptyWorld\<lparr>db_lists := [spicesList], db_items := [spicesItem],
       db_categories := [spicesCategory], st_lists := [spicesList],
       st_items := [''L1'' \<mapsto> [spicesItem]], st_customCategories := [spicesCategory],
       ls_categoryOrder := Some [''dairy'', ''produce''],
       st_categoryOrder := [''dairy'', ''produce'']\<rparr>"

text \<open>The same snapshot with the item measured in grams.\<close>

definition gramsItem :: ShoppingItem where
  "gramsItem = spicesItem\<lparr>item_unit := Some ''g''\<rparr>"

definition gramsBackup :: BackupData where
  "gramsBackup = spicesBackup\<lparr>bk_items := Some [gramsItem]\<rparr>"

text \<open>A snapshot of a later version without its lists.\<close>

definition brokenBackup :: BackupData where
  "brokenBackup = spicesBackup\<lparr>bk_version := Some ''2.0.0'', bk_lists := None\<rparr>"

text \<open>Two lists that both hold milk, written differently.\<close>

definition milkItem :: "string \<Rightarrow> string \<Rightarrow> string \<Rightarrow> string \<Rightarrow> ShoppingItem" where
  "milkItem itemId listId name category =
     \<lparr>item_id = itemId, item_listId = listId, item_name = name, item_quantity = 1,
      item_unit = None, item_category = category, item_completed = False,
      item_addedAt = 1000, item_completedAt = None, item_barcode = None, item_notes = None\<rparr>"

definition milkWorld :: world where
  "milkWorld =
     emptyWorld\<lparr>db_items :=
         [milkItem ''I1'' ''L1'' ''Milk'' ''dairy'', milkItem ''I2'' ''L1'' ''Bread'' ''bakery'',
          milkItem ''I3'' ''L2'' '' milk '' ''dairy''],
       st_items :=
         [''L1'' \<mapsto> [milkItem ''I1'' ''L1'' ''Milk'' ''dairy'',
                      milkItem ''I2'' ''L1'' ''Bread'' ''bakery''],
          ''L2'' \<mapsto> [milkItem ''I3'' ''L2'' '' milk '' ''dairy'']]\<rparr>"

section \<open>Properties of the string functions\<close>

lemma startsWith_iff: "startsWith s k \<longleftrightarrow> (\<exists>v. s = k @ v)"
  by (induction s k rule: startsWith.induct) auto

lemma includesStr_iff: "includesStr s k \<longleftrightarrow> (\<exists>u v. s = u @ k @ v)"
proof (induction s)
  case Nil
  then show ?case by auto
next
  case (Cons c cs)
  show ?case
  proof
    assume "includesStr (c # cs) k"
    then consider "startsWith (c # cs) k" | "includesStr cs k" by auto
    then show "\<exists>u v. c # cs = u @ k @ v"
    proof cases
      case 1
      then obtain v where "c # cs = k @ v" by (auto simp: startsWith_iff)
      then have "c # cs = [] @ k @ v" by simp
      then show ?thesis by blast
    next
      case 2
      then obtain u v where "cs = u @ k @ v" using Cons.IH by blast
      then have "c # cs = (c # u) @ k @ v" by simp
      then show ?thesis by blast
    qed
  next
    assume "\<exists>u v. c # cs = u @ k @ v"
    then obtain u v where uv: "c # cs = u @ k @ v" by blast
    show "includesStr (c # cs) k"
    proof (cases u)
      case Nil
      with uv have "startsWith (c # cs) k" by (auto simp: startsWith_iff)
      then show ?thesis by simp
    next
      case (Cons d u')
      with uv have "cs = u' @ k @ v" by simp
      then have "includesStr cs k" using Cons.IH by blast
      then show ?thesis by simp
    qed
  qed
qed

lemma includesStr_rev: "includesStr (rev s) (rev k) = includesStr s k"
proof -
  have "(\<exists>u v. rev s = u @ rev k @ v) \<longleftrightarrow> (\<exists>u v. s = u @ k @ v)"
  proof
    assume "\<exists>u v. rev s = u @ rev k @ v"
    then obtain u v where "rev s = u @ rev k @ v" by blast
    then have "rev (rev s) = rev (u @ rev k @ v)" by simp
    then have "s = rev v @ k @ rev u" by simp
    then show "\<exists>u v. s = u @ k @ v" by blast
  next
    assume "\<exists>u v. s = u @ k @ v"
    then obtain u v where "s = u @ k @ v" by blast
    then have "rev s = rev v @ rev k @ rev u" by simp
    then show "\<exists>u v. rev s = u @ rev k @ v" by blast
  qed
  then show ?thesis by (simp add: includesStr_iff)
qed

lemma includesStr_dropWhile:
  "k \<noteq> [] \<Longrightarrow> \<not> isSpace (hd k) \<Longrightarrow> includesStr (dropWhile isSpace s) k = includesStr s k"
proof (induction s)
  case Nil
  then show ?case by simp
next
  case (Cons c cs)
  show ?case
  proof (cases "isSpace c")
    case True
    have "\<not> startsWith (c # cs) k"
      using Cons.prems True by (cases k) auto
    then show ?thesis using True Cons by simp
  next
    case False
    then show ?thesis by simp
  qed
qed

lemma includesStr_trim: "tightWord k \<Longrightarrow> includesStr (trim s) k = includesStr s k"
proof -
  assume t: "tightWord k"
  then have k: "k \<noteq> []" "\<not> isSpace (hd k)" "rev k \<noteq> []" "\<not> isSpace (hd (rev k))"
    by (simp_all add: tightWord_def hd_rev)
  have "includesStr (trim s) k = includesStr (dropWhile isSpace (rev (dropWhile isSpace s))) (rev k)"
    unfolding trim_def using includesStr_rev[of "dropWhile isSpace (rev (dropWhile isSpace s))" "rev k"] by simp
  also have "\<dots> = includesStr (rev (dropWhile isSpace s)) (rev k)"
    using k(3,4) by (rule includesStr_dropWhile)
  also have "\<dots> = includesStr (dropWhile isSpace s) k"
    by (rule includesStr_rev)
  also have "\<dots> = includesStr s k"
    using k(1,2) by (rule includesStr_dropWhile)
  finally show ?thesis .
qed

lemma keywords_tight_exec: "list_all (\<lambda>(c, kws). list_all tightWord kws) categoryKeywords"
  by code_simp

lemma keywords_tight:
  "(c, kws) \<in> set categoryKeywords \<Longrightarrow> k \<in> set kws \<Longrightarrow> tightWord k"
  using keywords_tight_exec by (auto simp: list_all_iff)

lemma scanKeywords_trim:
  "(\<And>c kws k. (c, kws) \<in> set tbl \<Longrightarrow> k \<in> set kws \<Longrightarrow> tightWord k) \<Longrightarrow>
   scanKeywords tbl (trim n) =
     (case find (\<lambda>(category, keywords). list_ex (\<lambda>k. includesStr n k) keywords) tbl of
        None \<Rightarrow> ''other'' | Some (category, keywords) \<Rightarrow> category)"
proof (induction tbl)
  case Nil
  then show ?case by simp
next
  case (Cons e tbl)
  obtain c kws where e: "e = (c, kws)" by (cases e)
  have eq: "list_ex (\<lambda>k. includesStr (trim n) k) kws = list_ex (\<lambda>k. includesStr n k) kws"
    using Cons.prems[of c kws] e by (auto simp: list_ex_iff includesStr_trim)
  have "scanKeywords tbl (trim n) =
     (case find (\<lambda>(category, keywords). list_ex (\<lambda>k. includesStr n k) keywords) tbl of
        None \<Rightarrow> ''other'' | Some (category, keywords) \<Rightarrow> category)"
    using Cons.prems by (intro Cons.IH) auto
  then show ?case using e eq by simp
qed

lemma lowerChar_idem_exec: "list_all (\<lambda>c. lowerChar c = c) lowerChars"
  by code_simp

lemma lowerChar_idem: "lowerChar (lowerChar c) = lowerChar c"
proof (cases "map_of (zip upperChars lowerChars) c")
  case None
  then show ?thesis by (simp add: lowerChar_def)
next
  case (Some l)
  then have "l \<in> set lowerChars" by (meson in_set_zipE map_of_SomeD)
  then have "lowerChar l = l" using lowerChar_idem_exec by (simp add: list_all_iff)
  then show ?thesis using Some by (simp add: lowerChar_def)
qed

lemma toLowerCase_idem: "toLowerCase (toLowerCase s) = toLowerCase s"
  by (simp add: toLowerCase_def lowerChar_idem)

lemma replaceFrom_no_match: "\<not> matchesFrom r b s \<Longrightarrow> replaceFrom r rep b s = s"
  by (induction s arbitrary: b) (auto split: option.splits)

lemma splitFrom_no_match: "\<not> matchesFrom r b s \<Longrightarrow> splitFrom r seg b s = [seg @ s]"
  by (induction s arbitrary: b seg) (auto split: option.splits)

lemma replaceAll_no_match: "\<not> hasMatch r s \<Longrightarrow> replaceAll r rep s = s"
  by (simp add: hasMatch_def replaceAll_def replaceFrom_no_match)

lemma splitRx_no_match: "\<not> hasMatch r s \<Longrightarrow> splitRx r s = [s]"
  by (cases s) (auto simp: hasMatch_def splitRx_def splitFrom_no_match split: option.splits)

lemma uniqueInOrder_fold:
  "distinct acc \<Longrightarrow>
   distinct (foldl (\<lambda>seen x. if x \<in> set seen then seen else seen @ [x]) acc xs) \<and>
   set (foldl (\<lambda>seen x. if x \<in> set seen then seen else seen @ [x]) acc xs) = set acc \<union> set xs"
  by (induction xs arbitrary: acc) auto

lemma uniqueInOrder_distinct: "distinct (uniqueInOrder xs)"
  using uniqueInOrder_fold[of "[]" xs] by (simp add: uniqueInOrder_def)

lemma uniqueInOrder_set: "set (uniqueInOrder xs) = set xs"
  using uniqueInOrder_fold[of "[]" xs] by (simp add: uniqueInOrder_def)

lemma one_space_ends:
  "\<not> isSpace c \<Longrightarrow> one isSpace (b, c # cs) = []"
  "isSpace c \<Longrightarrow> one isSpace (b, c # cs) = [(Some c, cs)]"
  "one isSpace (b, []) = []"
  by (simp_all add: one_def)

lemma spaces_no_match: "\<not> isSpace c \<Longrightarrow> matchAt spaces (b, c # cs) = None"
  by (simp add: matchAt_def spaces_def one_space_ends)

lemma plusEnds_stop:
  "cs = [] \<or> \<not> isSpace (hd cs) \<Longrightarrow> plusEnds (one isSpace) n (b, cs) = []"
  by (cases n; cases cs) (simp_all add: one_space_ends)

lemma one_space_stop: "cs = [] \<or> \<not> isSpace (hd cs) \<Longrightarrow> one isSpace (b, cs) = []"
  by (cases cs) (simp_all add: one_space_ends)

lemma spaces_one_match:
  "isSpace c \<Longrightarrow> cs = [] \<or> \<not> isSpace (hd cs) \<Longrightarrow>
   matchAt spaces (b, c # cs) = Some (Some c, cs)"
  by (simp add: matchAt_def spaces_def one_space_ends one_space_stop plusEnds_stop)

lemma spaces_end: "matchAt spaces (b, []) = None"
  by (simp add: matchAt_def spaces_def one_space_ends)

lemma singleSpaced_fixed: "singleSpaced t \<Longrightarrow> replaceFrom spaces '' '' b t = t"
proof (induction t arbitrary: b rule: singleSpaced.induct)
  case 1
  then show ?case by (simp add: spaces_end)
next
  case (2 c)
  then show ?case
    by (cases "isSpace c") (simp_all add: spaces_no_match spaces_one_match spaces_end)
next
  case (3 c d ds)
  then show ?case
    by (cases "isSpace c") (simp_all add: spaces_no_match spaces_one_match)
qed

lemma sanitize_singleSpaced: "singleSpaced (trim s) \<Longrightarrow> sanitizeItemName s = trim s"
  by (simp add: sanitizeItemName_def replaceAll_def singleSpaced_fixed)

section \<open>Claims about categorization and parsing\<close>

text \<open>
  C4. \<^verbatim>\<open>parseItemsFromText("2 bottles of milk, a dozen eggs and bread")\<close> is
  \<^verbatim>\<open>["milk", "eggs", "bread"]\<close>: the quantity phrases are removed from the whole
  string first, which leaves \<^verbatim>\<open>"milk, eggs and bread"\<close>; that string is split at the
  comma and at the word "and" between white space; the segments are trimmed. For every
  input the result has no duplicate and no empty string.
\<close>

theorem parse_scenario:
  "stripQuantities ''2 bottles of milk, a dozen eggs and bread'' = ''milk, eggs and bread'' \<and>
   splitRx separatorRx ''milk, eggs and bread'' = [''milk'', '' eggs'', ''bread''] \<and>
   parseItemsFromText ''2 bottles of milk, a dozen eggs and bread'' = [''milk'', ''eggs'', ''bread''] \<and>
   distinct (parseItemsFromText t) \<and> [] \<notin> set (parseItemsFromText t)"
proof -
  have 1: "stripQuantities ''2 bottles of milk, a dozen eggs and bread'' = ''milk, eggs and bread''"
    by code_simp
  have 2: "splitRx separatorRx ''milk, eggs and bread'' = [''milk'', '' eggs'', ''bread'']"
    by code_simp
  have 3: "parseItemsFromText ''2 bottles of milk, a dozen eggs and bread'' = [''milk'', ''eggs'', ''bread'']"
    by code_simp
  have 4: "distinct (parseItemsFromText t)"
    by (simp add: parseItemsFromText_def uniqueInOrder_distinct)
  have 5: "[] \<notin> set (parseItemsFromText t)"
    by (simp add: parseItemsFromText_def uniqueInOrder_set)
  from 1 2 3 4 5 show ?thesis by blast
qed

text \<open>
  C5, as the code has it. For a string \<open>s\<close> that is not made of white space only and in
  which none of the patterns matches, \<^verbatim>\<open>parseItemsFromText(s)\<close> is the one-element
  list of the trimmed \<open>s\<close>; white space inside the name is kept as it is. So the result is
  \<^verbatim>\<open>[sanitizeItemName(s)]\<close> exactly when sanitizing \<open>s\<close> does no more than trim it,
  which is the case when the white space inside the trimmed \<open>s\<close> is single spaces.
\<close>

theorem parse_plain:
  assumes "trim s \<noteq> []" and "plainName s"
  shows "parseItemsFromText s = [trim s] \<and>
         (parseItemsFromText s = [sanitizeItemName s] \<longleftrightarrow> sanitizeItemName s = trim s) \<and>
         (singleSpaced (trim s) \<longrightarrow> parseItemsFromText s = [sanitizeItemName s])"
proof -
  from assms(2) have st: "stripQuantities s = s"
    by (simp add: plainName_def stripQuantities_def replaceAll_no_match)
  from assms(2) have sp: "splitRx separatorRx s = [s]"
    by (simp add: plainName_def splitRx_no_match)
  from assms(2) have cl: "cleanSegment s = trim s"
    by (simp add: plainName_def cleanSegment_def replaceAll_no_match)
  have "parseItemsFromText s = [trim s]"
    using assms(1) st sp cl by (simp add: parseItemsFromText_def uniqueInOrder_def)
  then show ?thesis by (auto simp: sanitize_singleSpaced)
qed

theorem parse_plain_witness:
  "trim ''  uh um er '' \<noteq> [] \<and> plainName ''  uh um er '' \<and>
   singleSpaced (trim ''  uh um er '') \<and>
   parseItemsFromText ''  uh um er '' = [''uh um er''] \<and>
   sanitizeItemName ''  uh um er '' = ''uh um er'' \<and>
   parseItemsFromText ''  uh um er '' = [sanitizeItemName ''  uh um er '']"
proof -
  have h1: "trim ''  uh um er '' \<noteq> []" by code_simp
  have h2: "plainName ''  uh um er ''" by code_simp
  have h3: "singleSpaced (trim ''  uh um er '')" by code_simp
  have t: "trim ''  uh um er '' = ''uh um er''" by code_simp
  have s: "sanitizeItemName ''  uh um er '' = ''uh um er''" by code_simp
  from parse_plain[OF h1 h2] h3
  have p: "parseItemsFromText ''  uh um er '' = [trim ''  uh um er '']"
    and q: "parseItemsFromText ''  uh um er '' = [sanitizeItemName ''  uh um er '']"
    by blast+
  from p t have "parseItemsFromText ''  uh um er '' = [''uh um er'']" by simp
  with h1 h2 h3 s q show ?thesis by blast
qed

text \<open>
  C5 as stated fails: \<^verbatim>\<open>"peanut  butter"\<close> (two spaces) is not empty, has no separator
  and nothing to strip, and \<^verbatim>\<open>parseItemsFromText\<close> returns it with both spaces, while
  \<^verbatim>\<open>sanitizeItemName\<close> returns \<^verbatim>\<open>"peanut butter"\<close>.
\<close>

theorem parse_plain_counterexample:
  "''peanut  butter'' \<noteq> [] \<and> plainName ''peanut  butter'' \<and>
   parseItemsFromText ''peanut  butter'' = [''peanut  butter''] \<and>
   sanitizeItemName ''peanut  butter'' = ''peanut butter'' \<and>
   parseItemsFromText ''peanut  butter'' \<noteq> [sanitizeItemName ''peanut  butter'']"
  by code_simp

text \<open>
  C6. Without a preferred category, \<^verbatim>\<open>categorizeItem\<close> returns the first category, in
  the order produce, dairy, meat, bakery, frozen, pantry, beverages, snacks, household, one
  of whose keywords is a substring of the lower-cased name, and "other" when there is
  none. (The code also trims the lower-cased name; no keyword starts or ends with white
  space, so trimming does not change which keywords occur.) The result depends on the
  lower-cased name only; "Milk" in any case is dairy and the empty name is other.
\<close>

theorem categorize_by_keywords:
  "categorizeItem itemName None =
     (case find (\<lambda>(category, keywords).
                   list_ex (\<lambda>keyword. includesStr (toLowerCase itemName) keyword) keywords)
             categoryKeywords of
        None \<Rightarrow> ''other''
      | Some (category, keywords) \<Rightarrow> category) \<and>
   map fst categoryKeywords =
     [''produce'', ''dairy'', ''meat'', ''bakery'', ''frozen'', ''pantry'', ''beverages'',
      ''snacks'', ''household''] \<and>
   categorizeItem (toLowerCase itemName) None = categorizeItem itemName None \<and>
   categorizeItem ''Milk'' None = ''dairy'' \<and>
   categorizeItem ''milk'' None = ''dairy'' \<and>
   categorizeItem ''MILK'' None = ''dairy'' \<and>
   categorizeItem ''MiLk'' None = ''dairy'' \<and>
   categorizeItem '''' None = ''other''"
proof -
  have 1: "categorizeItem itemName None =
     (case find (\<lambda>(category, keywords).
                   list_ex (\<lambda>keyword. includesStr (toLowerCase itemName) keyword) keywords)
             categoryKeywords of
        None \<Rightarrow> ''other''
      | Some (category, keywords) \<Rightarrow> category)"
    unfolding categorizeItem_def option.case
    by (rule scanKeywords_trim) (rule keywords_tight)
  have 2: "map fst categoryKeywords =
     [''produce'', ''dairy'', ''meat'', ''bakery'', ''frozen'', ''pantry'', ''beverages'',
      ''snacks'', ''household'']"
    by (simp add: categoryKeywords_def)
  have 3: "categorizeItem (toLowerCase itemName) None = categorizeItem itemName None"
    by (simp add: categorizeItem_def toLowerCase_idem)
  have 4: "categorizeItem ''Milk'' None = ''dairy''" by code_simp
  have 5: "categorizeItem ''milk'' None = ''dairy''" by code_simp
  have 6: "categorizeItem ''MILK'' None = ''dairy''" by code_simp
  have 7: "categorizeItem ''MiLk'' None = ''dairy''" by code_simp
  have 8: "categorizeItem '''' None = ''other''" by code_simp
  from 1 2 3 4 5 6 7 8 show ?thesis by blast
qed

text \<open>
  C7, as the code has it. A preferred category that is not the empty string is returned
  as it is, whatever the name: "Eggs" with the preference "bakery" is bakery, although the
  keywords alone give dairy.
\<close>

theorem preferred_category_wins:
  "preferredCategory \<noteq> [] \<Longrightarrow> categorizeItem itemName (Some preferredCategory) = preferredCategory"
  by (simp add: categorizeItem_def)

theorem preferred_category_wins_witness:
  "''bakery'' \<noteq> [] \<and> categorizeItem ''Eggs'' (Some ''bakery'') = ''bakery'' \<and>
   categorizeItem ''Eggs'' None = ''dairy''"
proof -
  have h: "''bakery'' \<noteq> []" by simp
  have d: "categorizeItem ''Eggs'' None = ''dairy''" by code_simp
  from preferred_category_wins[OF h, of "''Eggs''"] h d show ?thesis by blast
qed

text \<open>
  C7 as stated fails for the preferred category \<^verbatim>\<open>""\<close>, a string that is not null:
  the truthiness test rejects it and the keywords decide.
\<close>

theorem preferred_category_counterexample:
  "categorizeItem ''Eggs'' (Some []) = ''dairy'' \<and> categorizeItem ''Eggs'' (Some []) \<noteq> []"
  by code_simp

section \<open>Properties of validateBackup\<close>

lemma validateBackup_valid_iff: "validateBackup d = Inr r \<Longrightarrow> valid r \<longleftrightarrow> errors r = []"
  by (auto simp: validateBackup_def Let_def split: if_splits jsval.splits)

lemma map_of_optProp_other:
  "k \<noteq> k' \<Longrightarrow> map_of (optProp k enc v @ rest) k' = map_of rest k'"
  by (simp add: optProp_def split: option.splits)

lemma map_of_optProp_last: "k \<noteq> k' \<Longrightarrow> map_of (optProp k enc v) k' = None"
  by (simp add: optProp_def split: option.splits)

lemma optProp_None: "optProp k enc None = []"
  by (simp add: optProp_def)

lemma version_of_typed:
  "getProp (jsOfBackup b) ''version'' =
     (case bk_version b of None \<Rightarrow> JUndefined | Some v \<Rightarrow> JStr v)"
proof (cases "bk_version b")
  case None
  then show ?thesis
    by (simp add: jsOfBackup_def optProp_None map_of_optProp_other map_of_optProp_last
        del: map_of_append)
next
  case (Some v)
  then show ?thesis by (simp add: jsOfBackup_def optProp_def)
qed

lemma validateBackup_typed_returns: "\<exists>r. validateBackup (jsOfBackup b) = Inr r"
proof -
  have "truthy (jsOfBackup b)" "typeofObject (jsOfBackup b)"
    by (simp_all add: jsOfBackup_def)
  then show ?thesis
    unfolding validateBackup_def Let_def version_of_typed
    by (cases "bk_version b") simp_all
qed

section \<open>What the store operations can throw\<close>

lemma forEach_error:
  "(\<And>x w. snd (body x w) \<noteq> Inl (Error m)) \<Longrightarrow> snd (forEach body xs w) \<noteq> Inl (Error m)"
proof (induction xs arbitrary: w)
  case Nil
  then show ?case by simp
next
  case (Cons x xs)
  show ?case
  proof (cases "body x w")
    case (Pair w' r)
    show ?thesis
    proof (cases r)
      case (Inl e)
      with Pair Cons.prems[of x w] show ?thesis by simp
    next
      case (Inr u)
      with Pair Cons show ?thesis by simp
    qed
  qed
qed

lemma createCategory_error: "snd (createCategory n i w) \<noteq> Inl (Error m)"
  by (simp add: createCategory_def tblAdd_def dateNow_def Let_def)

lemma createList_error: "snd (createList n c w) \<noteq> Inl (Error m)"
  by (simp add: createList_def listsDB_create_def andThen_def tblAdd_def dateNow_def uuidv4_def Let_def)

lemma createItem_error: "snd (createItem l n c q u w) \<noteq> Inl (Error m)"
  by (simp add: createItem_def itemsDB_create_def andThen_def tblAdd_def dateNow_def uuidv4_def Let_def)

lemma andThen_error:
  "snd r \<noteq> Inl (Error m) \<Longrightarrow> (\<And>a w. snd (f a w) \<noteq> Inl (Error m)) \<Longrightarrow>
   snd (andThen r f) \<noteq> Inl (Error m)"
  by (cases r) (auto simp: andThen_def split: sum.splits)

lemma restoreCategory_error: "snd (restoreCategory c w) \<noteq> Inl (Error m)"
  unfolding restoreCategory_def by (rule andThen_error) (simp_all add: createCategory_error)

lemma restoreProduct_error: "snd (restoreProduct p w) \<noteq> Inl (Error m)"
  by (simp add: restoreProduct_def)

lemma restoreItem_error: "snd (restoreItem l i w) \<noteq> Inl (Error m)"
  unfolding restoreItem_def by (rule andThen_error) (simp_all add: createItem_error)

lemma restoreList_error: "snd (restoreList its l w) \<noteq> Inl (Error m)"
  unfolding restoreList_def
  by (rule andThen_error) (auto simp: createList_error Let_def forEach_error restoreItem_error
      split: option.splits)

lemma restoreAll_error: "snd (restoreAll b w) \<noteq> Inl (Error m)"
  unfolding restoreAll_def
  by (cases "bk_customCategories b"; cases "bk_products b"; cases "bk_lists b"; simp;
      intro andThen_error forEach_error restoreCategory_error restoreProduct_error
        restoreList_error; simp)

section \<open>Loops and sequencing\<close>

lemma andThenE:
  assumes "andThen r f = (w', res)"
  obtains (failed) e where "r = (w', Inl e)" and "res = Inl e"
        | (passed) w1 a where "r = (w1, Inr a)" and "f a w1 = (w', res)"
  using assms by (cases r) (auto simp: andThen_def split: sum.splits)

lemma fold_frame:
  assumes "\<And>x w. P (f x w) = P w"
  shows "P (fold f xs w) = P w"
  using assms by (induction xs arbitrary: w) simp_all

lemma forEach_frame:
  assumes "\<And>x w. P (fst (body x w)) = P w"
  shows "P (fst (forEach body xs w)) = P w"
proof (induction xs arbitrary: w)
  case Nil
  then show ?case by simp
next
  case (Cons x xs)
  obtain w1 r where b: "body x w = (w1, r)" by (cases "body x w")
  with assms[of x w] have p: "P w1 = P w" by simp
  show ?case
  proof (cases r)
    case (Inl e)
    with b p show ?thesis by simp
  next
    case (Inr u)
    with b p Cons.IH[of w1] show ?thesis by simp
  qed
qed

lemma andThen_frame:
  assumes "P (fst r) = P w" and "\<And>a w1. P (fst (f a w1)) = P w1"
  shows "P (fst (andThen r f)) = P w"
proof (cases r)
  case (Pair w1 res)
  with assms show ?thesis by (cases res) (simp_all add: andThen_def)
qed

section \<open>What the store operations leave alone\<close>

lemma deleteList_order: "orderOf (deleteList i w) = orderOf w"
  by (simp add: orderOf_def deleteList_def)

lemma clearProducts_order: "orderOf (clearProducts w) = orderOf w"
  by (simp add: orderOf_def clearProducts_def)

lemma deleteCategory_order: "orderOf (deleteCategory i w) = orderOf w"
  by (simp add: orderOf_def deleteCategory_def)

lemma clearExisting_order: "orderOf (clearExisting w) = orderOf w"
  by (simp add: clearExisting_def Let_def fold_frame[where P = orderOf] deleteList_order
      clearProducts_order deleteCategory_order)

lemma createCategory_order: "orderOf (fst (createCategory n i w)) = orderOf w"
  by (simp add: orderOf_def createCategory_def tblAdd_def dateNow_def Let_def)

lemma saveProduct_order: "orderOf (fst (saveProduct b n c w)) = orderOf w"
  by (simp add: orderOf_def saveProduct_def dateNow_def Let_def)

lemma createList_order: "orderOf (fst (createList n c w)) = orderOf w"
  by (simp add: orderOf_def createList_def listsDB_create_def andThen_def tblAdd_def
      dateNow_def uuidv4_def Let_def)

lemma archiveList_order: "orderOf (archiveList i w) = orderOf w"
  by (simp add: orderOf_def archiveList_def listsDB_archive_def dateNow_def Let_def
      split: option.splits)

lemma createItem_order: "orderOf (fst (createItem l n c q u w)) = orderOf w"
  by (simp add: orderOf_def createItem_def itemsDB_create_def andThen_def tblAdd_def
      dateNow_def uuidv4_def Let_def)

lemma itemsDB_toggleComplete_order: "orderOf (itemsDB_toggleComplete i w) = orderOf w"
  by (simp add: orderOf_def itemsDB_toggleComplete_def dateNow_def Let_def split: option.splits)

lemma toggleItemComplete_order: "orderOf (toggleItemComplete l i w) = orderOf w"
proof -
  have "orderOf (toggleItemComplete l i w) = orderOf (itemsDB_toggleComplete i w)"
    by (simp add: orderOf_def toggleItemComplete_def dateNow_def Let_def split: option.splits)
  then show ?thesis by (simp add: itemsDB_toggleComplete_order)
qed

lemma restoreCategory_order: "orderOf (fst (restoreCategory c w)) = orderOf w"
  unfolding restoreCategory_def
  by (rule andThen_frame) (simp_all add: createCategory_order)

lemma restoreProduct_order: "orderOf (fst (restoreProduct p w)) = orderOf w"
  by (simp add: restoreProduct_def saveProduct_order)

lemma restoreItem_order: "orderOf (fst (restoreItem l i w)) = orderOf w"
  unfolding restoreItem_def
  by (rule andThen_frame) (simp_all add: createItem_order toggleItemComplete_order)

lemma restoreList_order: "orderOf (fst (restoreList its l w)) = orderOf w"
  unfolding restoreList_def
  by (rule andThen_frame)
     (simp_all add: createList_order archiveList_order Let_def
        forEach_frame[where P = orderOf] restoreItem_order split: option.splits)

lemma forEach_restoreCategory_order: "orderOf (fst (forEach restoreCategory cs w)) = orderOf w"
  by (rule forEach_frame) (rule restoreCategory_order)

lemma forEach_restoreProduct_order: "orderOf (fst (forEach restoreProduct ps w)) = orderOf w"
  by (rule forEach_frame) (rule restoreProduct_order)

lemma forEach_restoreList_order: "orderOf (fst (forEach (restoreList its) ls w)) = orderOf w"
  by (rule forEach_frame) (rule restoreList_order)

lemma restoreSettings_order:
  "bk_categoryOrder b = Some [] \<Longrightarrow>
   orderOf (restoreSettings b w) =
     (ls_categoryOrder w,
      case ls_categoryOrder w of None \<Rightarrow> st_categoryOrder w | Some savedOrder \<Rightarrow> savedOrder)"
  by (simp add: orderOf_def restoreSettings_def loadCustomCategories_def loadProducts_def
      loadLists_def Let_def split: option.splits)

lemma restoreAll_order:
  assumes "bk_categoryOrder b = Some []" and "restoreAll b w = (w', res)"
  shows "orderOf w' =
     (ls_categoryOrder w,
      if res = Inr () then
        (case ls_categoryOrder w of None \<Rightarrow> st_categoryOrder w | Some savedOrder \<Rightarrow> savedOrder)
      else st_categoryOrder w)"
proof (cases "bk_customCategories b")
  case None
  with assms(2) show ?thesis by (auto simp: restoreAll_def orderOf_def)
next
  case (Some cs)
  from assms(2) Some have
    "andThen (forEach restoreCategory cs w)
        (\<lambda>u w2. case bk_products b of
             None \<Rightarrow> (w2, Inl TypeError)
           | Some products \<Rightarrow>
               andThen (forEach restoreProduct products w2)
                 (\<lambda>u w3. case bk_lists b of
                      None \<Rightarrow> (w3, Inl TypeError)
                    | Some snapshotLists \<Rightarrow>
                        andThen (forEach (restoreList (bk_items b)) snapshotLists w3)
                          (\<lambda>u w4. (restoreSettings b w4, Inr ())))) = (w', res)"
    by (simp add: restoreAll_def)
  then show ?thesis
  proof (cases rule: andThenE)
    case (failed e)
    with forEach_restoreCategory_order[of cs w]
    show ?thesis by (simp add: orderOf_def)
  next
    case (passed w2 a)
    with forEach_restoreCategory_order[of cs w]
    have o2: "orderOf w2 = orderOf w" by simp
    show ?thesis
    proof (cases "bk_products b")
      case None
      with passed(2) o2 show ?thesis by (auto simp: orderOf_def)
    next
      case (Some ps)
      with passed(2) have
        "andThen (forEach restoreProduct ps w2)
           (\<lambda>u w3. case bk_lists b of
                None \<Rightarrow> (w3, Inl TypeError)
              | Some snapshotLists \<Rightarrow>
                  andThen (forEach (restoreList (bk_items b)) snapshotLists w3)
                    (\<lambda>u w4. (restoreSettings b w4, Inr ()))) = (w', res)"
        by simp
      then show ?thesis
      proof (cases rule: andThenE)
        case (failed e)
        with forEach_restoreProduct_order[of ps w2] o2
        show ?thesis by (simp add: orderOf_def)
      next
        case (passed w3 a3)
        with forEach_restoreProduct_order[of ps w2] o2
        have o3: "orderOf w3 = orderOf w" by simp
        show ?thesis
        proof (cases "bk_lists b")
          case None
          with passed(2) o3 show ?thesis by (auto simp: orderOf_def)
        next
          case (Some ls)
          with passed(2) have
            "andThen (forEach (restoreList (bk_items b)) ls w3)
               (\<lambda>u w4. (restoreSettings b w4, Inr ())) = (w', res)"
            by simp
          then show ?thesis
          proof (cases rule: andThenE)
            case (failed e)
            with forEach_restoreList_order[of "bk_items b" ls w3] o3
            show ?thesis by (simp add: orderOf_def)
          next
            case (passed w4 a4)
            with forEach_restoreList_order[of "bk_items b" ls w3] o3
            have o4: "orderOf w4 = orderOf w" by simp
            from passed(2) have "w' = restoreSettings b w4" and "res = Inr ()" by simp_all
            with restoreSettings_order[OF assms(1), of w4] o4 show ?thesis
              by (simp add: orderOf_def split: option.splits)
          qed
        qed
      qed
    qed
  qed
qed

section \<open>Updating rows by name\<close>

lemma fold_tblUpdate:
  assumes "\<And>x. key (f x) = key x" and "\<And>x. f (f x) = f x"
  shows "fold (\<lambda>m t. tblUpdate key (key m) f t) ms t =
         map (\<lambda>x. if key x \<in> set (map key ms) then f x else x) t"
proof (induction ms arbitrary: t)
  case Nil
  then show ?case by simp
next
  case (Cons m ms)
  have "fold (\<lambda>m t. tblUpdate key (key m) f t) (m # ms) t =
        map (\<lambda>x. if key x \<in> set (map key ms) then f x else x) (tblUpdate key (key m) f t)"
    using Cons.IH by simp
  also have "\<dots> = map (\<lambda>x. if key x \<in> set (map key (m # ms)) then f x else x) t"
    using assms by (auto simp: tblUpdate_def)
  finally show ?case .
qed

lemma matching_ids:
  assumes "distinct (map key t)" and "x \<in> set t"
  shows "key x \<in> set (map key (filter P t)) \<longleftrightarrow> P x"
proof
  assume "key x \<in> set (map key (filter P t))"
  then obtain y where y: "y \<in> set t" "P y" "key y = key x" by auto
  from assms(1) have "inj_on key (set t)" by (simp add: distinct_map)
  with y(1,3) assms(2) have "y = x" by (auto dest: inj_onD)
  with y(2) show "P x" by simp
next
  assume "P x"
  with assms(2) show "key x \<in> set (map key (filter P t))" by auto
qed

lemma itemsDB_updateByName_rows:
  assumes "\<And>x. item_id (f x) = item_id x" and "\<And>x. f (f x) = f x"
  shows "db_items (fst (itemsDB_updateByName name f w)) =
         map (\<lambda>x. if item_id x \<in> set (map item_id
                      (filter (\<lambda>i. trim (toLowerCase (item_name i)) = trim (toLowerCase name))
                         (db_items w)))
                   then f x else x) (db_items w)"
  using fold_tblUpdate[of item_id f, OF assms]
  by (simp add: itemsDB_updateByName_def Let_def)

lemma updateItemsByName_db:
  "db_items (fst (updateItemsByName name f w)) = db_items (fst (itemsDB_updateByName name f w))"
  by (simp add: updateItemsByName_def itemsDB_updateByName_def Let_def)

lemma updateItemsByName_st:
  "st_items (fst (updateItemsByName name f w)) =
     (\<lambda>listId. map_option
        (map (\<lambda>item. if trim (toLowerCase (item_name item)) = trim (toLowerCase name)
                     then f item else item))
        (st_items w listId))"
  by (simp add: updateItemsByName_def itemsDB_updateByName_def Let_def)

lemma updateItemsByName_prefs:
  "st_preferences (fst (updateItemsByName name f w)) = st_preferences w"
  "db_categoryPreferences (fst (updateItemsByName name f w)) = db_categoryPreferences w"
  by (simp_all add: updateItemsByName_def itemsDB_updateByName_def Let_def)

lemma savePreference_items:
  "db_items (savePreference name c w) = db_items w"
  "st_items (savePreference name c w) = st_items w"
  by (simp_all add: savePreference_def dateNow_def Let_def)

lemma savePreference_st:
  "st_preferences (savePreference name c w) = (st_preferences w)(normalizeItemName name \<mapsto> c)"
  by (simp add: savePreference_def dateNow_def Let_def)

lemma tblPut_has: "r \<in> set (tblPut key r t)"
  by (auto simp: tblPut_def)

lemma tblPut_only: "p \<in> set (tblPut key r t) \<Longrightarrow> key p = key r \<Longrightarrow> p = r"
  by (auto simp: tblPut_def image_iff split: if_splits)

lemma savePreference_db:
  "\<exists>p\<in>set (db_categoryPreferences (savePreference name c w)).
      pref_itemName p = normalizeItemName name \<and> pref_category p = c"
  "p \<in> set (db_categoryPreferences (savePreference name c w)) \<Longrightarrow>
   pref_itemName p = normalizeItemName name \<Longrightarrow> pref_category p = c"
proof -
  let ?r = "\<lparr>pref_itemName = normalizeItemName name, pref_category = c,
             pref_learnedAt = clock w (clock_reads w)\<rparr>"
  have eq: "db_categoryPreferences (savePreference name c w) =
            tblPut pref_itemName ?r (db_categoryPreferences w)"
    by (simp add: savePreference_def dateNow_def Let_def)
  from tblPut_has[of ?r pref_itemName "db_categoryPreferences w"] eq
  have "?r \<in> set (db_categoryPreferences (savePreference name c w))" by simp
  then show "\<exists>p\<in>set (db_categoryPreferences (savePreference name c w)).
      pref_itemName p = normalizeItemName name \<and> pref_category p = c"
    by (rule bexI[rotated]) simp
  assume "p \<in> set (db_categoryPreferences (savePreference name c w))"
    and "pref_itemName p = normalizeItemName name"
  with eq tblPut_only[of p pref_itemName ?r "db_categoryPreferences w"]
  show "pref_category p = c" by simp
qed

lemma handleChangeCategory_found:
  assumes "find (\<lambda>i. item_id i = itemId) (getItemsByListId listId w) = Some item"
  shows "handleChangeCategory listId itemId newCategory w =
         fst (updateItemsByName (item_name item) (\<lambda>i. i\<lparr>item_category := newCategory\<rparr>)
                (savePreference (item_name item) newCategory w))"
  using assms by (simp add: handleChangeCategory_def Let_def split: prod.splits)

section \<open>The effect of the import on the database tables\<close>

lemma forEach_ok_Cons:
  assumes "forEach body (x # xs) w = (w', Inr u)"
  obtains w1 u1 where "body x w = (w1, Inr u1)" and "forEach body xs w1 = (w', Inr u)"
  using assms by (cases "body x w") (auto split: sum.splits)

lemma find_snoc_new:
  "k \<notin> set (map key t) \<Longrightarrow> key r = k \<Longrightarrow> find (\<lambda>x. key x = k) (t @ [r]) = Some r"
  by (induction t) auto

lemma tblUpdate_snoc_new:
  "k \<notin> set (map key t) \<Longrightarrow> key r = k \<Longrightarrow> tblUpdate key k f (t @ [r]) = t @ [f r]"
  by (induction t) (auto simp: tblUpdate_def)

lemma deleteList_db:
  "db_lists (deleteList i w) = filter (\<lambda>l. list_id l \<noteq> i) (db_lists w)"
  "db_items (deleteList i w) = filter (\<lambda>x. item_listId x \<noteq> i) (db_items w)"
  "db_categories (deleteList i w) = db_categories w"
  "st_customCategories (deleteList i w) = st_customCategories w"
  "clock (deleteList i w) = clock w"
  "clock_reads (deleteList i w) = clock_reads w"
  by (simp_all add: deleteList_def tblDelete_def)

lemma deleteCategory_db:
  "db_lists (deleteCategory i w) = db_lists w"
  "db_items (deleteCategory i w) = db_items w"
  "db_categories (deleteCategory i w) = filter (\<lambda>c. cat_id c \<noteq> i) (db_categories w)"
  "clock (deleteCategory i w) = clock w"
  "clock_reads (deleteCategory i w) = clock_reads w"
  by (simp_all add: deleteCategory_def tblDelete_def)

lemma fold_deleteList_lists:
  "db_lists (fold deleteList ids w) = filter (\<lambda>l. list_id l \<notin> set ids) (db_lists w)"
  by (induction ids arbitrary: w) (simp_all add: deleteList_db conj_commute)

lemma fold_deleteList_items:
  "db_items (fold deleteList ids w) = filter (\<lambda>i. item_listId i \<notin> set ids) (db_items w)"
  by (induction ids arbitrary: w) (simp_all add: deleteList_db conj_commute)

lemma fold_deleteCategory_categories:
  "db_categories (fold deleteCategory ids w) = filter (\<lambda>c. cat_id c \<notin> set ids) (db_categories w)"
  by (induction ids arbitrary: w) (simp_all add: deleteCategory_db conj_commute)

lemma fold_deleteList_db:
  "db_categories (fold deleteList ids w) = db_categories w"
  "st_customCategories (fold deleteList ids w) = st_customCategories w"
  "clock (fold deleteList ids w) = clock w"
  "clock_reads (fold deleteList ids w) = clock_reads w"
  by (rule fold_frame, simp add: deleteList_db)+

lemma fold_deleteCategory_db:
  "db_lists (fold deleteCategory ids w) = db_lists w"
  "db_items (fold deleteCategory ids w) = db_items w"
  "clock (fold deleteCategory ids w) = clock w"
  "clock_reads (fold deleteCategory ids w) = clock_reads w"
  by (rule fold_frame, simp add: deleteCategory_db)+

lemma clearExisting_db:
  "db_lists (clearExisting w) = keptLists False w"
  "db_items (clearExisting w) = keptItems False w"
  "db_categories (clearExisting w) = keptCategories False w"
  "clock (clearExisting w) = clock w"
  "clock_reads (clearExisting w) = clock_reads w"
  by (simp_all add: clearExisting_def Let_def fold_deleteCategory_db fold_deleteList_db
      fold_deleteList_lists fold_deleteList_items fold_deleteCategory_categories
      clearProducts_def keptLists_def keptItems_def keptCategories_def)

text \<open>The loops over categories and products leave lists and items alone.\<close>

lemma restoreCategory_rows:
  "db_lists (fst (restoreCategory c w)) = db_lists w"
  "db_items (fst (restoreCategory c w)) = db_items w"
  by (simp_all add: restoreCategory_def createCategory_def andThen_def tblAdd_def dateNow_def
      Let_def)

lemma restoreProduct_rows:
  "db_lists (fst (restoreProduct p w)) = db_lists w"
  "db_items (fst (restoreProduct p w)) = db_items w"
  "db_categories (fst (restoreProduct p w)) = db_categories w"
  by (simp_all add: restoreProduct_def saveProduct_def dateNow_def Let_def)

lemma forEach_restoreCategory_rows:
  "db_lists (fst (forEach restoreCategory cs w)) = db_lists w"
  "db_items (fst (forEach restoreCategory cs w)) = db_items w"
  by (rule forEach_frame, simp add: restoreCategory_rows)+

lemma forEach_restoreProduct_rows:
  "db_lists (fst (forEach restoreProduct ps w)) = db_lists w"
  "db_items (fst (forEach restoreProduct ps w)) = db_items w"
  "db_categories (fst (forEach restoreProduct ps w)) = db_categories w"
  by (rule forEach_frame, simp add: restoreProduct_rows)+

lemma restoreSettings_rows:
  "db_lists (restoreSettings b w) = db_lists w"
  "db_items (restoreSettings b w) = db_items w"
  "db_categories (restoreSettings b w) = db_categories w"
  "set (st_customCategories (restoreSettings b w)) = set (db_categories w)"
  by (simp_all add: restoreSettings_def loadCustomCategories_def loadProducts_def loadLists_def
      saveCategoryOrder_def Let_def split: option.splits)

text \<open>Creating a row appends it under a key that was not in the table.\<close>

lemma createItem_ok:
  assumes "createItem l n c q u w = (w', Inr it)"
  shows "db_items w' = db_items w @ [it]"
    and "db_lists w' = db_lists w"
    and "db_categories w' = db_categories w"
    and "item_id it \<notin> set (map item_id (db_items w))"
    and "itemView it = (n, c, False, q)"
  using assms
  by (auto simp: createItem_def itemsDB_create_def andThen_def tblAdd_def dateNow_def
      uuidv4_def Let_def itemView_def split: if_splits)

lemma createList_ok:
  assumes "createList n c w = (w', Inr l)"
  shows "db_lists w' = db_lists w @ [l]"
    and "db_items w' = db_items w"
    and "db_categories w' = db_categories w"
    and "list_id l \<notin> set (map list_id (db_lists w))"
    and "listView l = (n, c, False)"
  using assms
  by (auto simp: createList_def listsDB_create_def andThen_def tblAdd_def dateNow_def
      uuidv4_def Let_def listView_def split: if_splits)

lemma createCategory_ok:
  assumes "createCategory n i w = (w', Inr c)"
  shows "db_categories w' = db_categories w @ [c]"
    and "categoryView c = (customCategoryId n (clock w (clock_reads w)), n)"
    and "clock w' = clock w"
    and "clock_reads w' = Suc (clock_reads w)"
  using assms
  by (auto simp: createCategory_def tblAdd_def dateNow_def Let_def categoryView_def
      split: if_splits)

lemma toggleItemComplete_rows:
  "db_items (toggleItemComplete l i w) = db_items (itemsDB_toggleComplete i w)"
  "db_lists (toggleItemComplete l i w) = db_lists w"
  "db_categories (toggleItemComplete l i w) = db_categories w"
  by (simp_all add: toggleItemComplete_def itemsDB_toggleComplete_def dateNow_def Let_def
      split: option.splits)

lemma itemsDB_toggleComplete_new:
  assumes "db_items w = t @ [it]" and "item_id it \<notin> set (map item_id t)"
    and "\<not> item_completed it"
  shows "db_items (itemsDB_toggleComplete (item_id it) w) =
         t @ [it\<lparr>item_completed := True, item_completedAt := Some (clock w (clock_reads w))\<rparr>]"
  using assms find_snoc_new[of "item_id it" item_id t it]
    tblUpdate_snoc_new[of "item_id it" item_id t it]
  by (simp add: itemsDB_toggleComplete_def tblGet_def dateNow_def Let_def)

lemma archiveList_rows:
  "db_lists (archiveList i w) =
     tblUpdate list_id i (\<lambda>l. l\<lparr>list_archived := True, list_updatedAt := clock w (clock_reads w)\<rparr>)
       (db_lists w)"
  "db_items (archiveList i w) = db_items w"
  "db_categories (archiveList i w) = db_categories w"
  by (simp_all add: archiveList_def listsDB_archive_def dateNow_def Let_def split: option.splits)

lemma restoreItem_ok:
  assumes "restoreItem newListId item w = (w', Inr u)"
  shows "db_lists w' = db_lists w"
    and "db_categories w' = db_categories w"
    and "\<exists>x. db_items w' = db_items w @ [x] \<and>
             itemView x = (item_name item, item_category item, item_completed item, 1)"
proof -
  from assms obtain w1 newItem where
    c: "createItem newListId (item_name item) (item_category item) 1 None w = (w1, Inr newItem)"
    and w': "w' = (if item_completed item
                   then toggleItemComplete newListId (item_id newItem) w1 else w1)"
    unfolding restoreItem_def by (auto elim!: andThenE)
  note ok = createItem_ok[OF c]
  show "db_lists w' = db_lists w"
    using w' ok(2) by (simp add: toggleItemComplete_rows)
  show "db_categories w' = db_categories w"
    using w' ok(3) by (simp add: toggleItemComplete_rows)
  show "\<exists>x. db_items w' = db_items w @ [x] \<and>
             itemView x = (item_name item, item_category item, item_completed item, 1)"
  proof (cases "item_completed item")
    case False
    with w' ok(1,5) show ?thesis by simp
  next
    case True
    from ok(5) have nc: "\<not> item_completed newItem" by (simp add: itemView_def)
    from itemsDB_toggleComplete_new[OF ok(1) ok(4) nc] True w'
    have "db_items w' = db_items w @
            [newItem\<lparr>item_completed := True, item_completedAt := Some (clock w1 (clock_reads w1))\<rparr>]"
      by (simp add: toggleItemComplete_rows)
    moreover from ok(5) True have
      "itemView (newItem\<lparr>item_completed := True,
                         item_completedAt := Some (clock w1 (clock_reads w1))\<rparr>) =
       (item_name item, item_category item, item_completed item, 1)"
      by (simp add: itemView_def)
    ultimately show ?thesis by blast
  qed
qed

lemma forEach_restoreItem_ok:
  assumes "forEach (restoreItem newListId) its w = (w', Inr u)"
  shows "db_lists w' = db_lists w \<and> db_categories w' = db_categories w \<and>
         map itemView (db_items w') =
           map itemView (db_items w) @
           map (\<lambda>i. (item_name i, item_category i, item_completed i, 1)) its"
  using assms
proof (induction its arbitrary: w)
  case Nil
  then show ?case by simp
next
  case (Cons i its)
  from Cons.prems obtain w1 u1 where
    b: "restoreItem newListId i w = (w1, Inr u1)"
    and r: "forEach (restoreItem newListId) its w1 = (w', Inr u)"
    by (rule forEach_ok_Cons)
  from restoreItem_ok[OF b] Cons.IH[OF r] show ?case by auto
qed

lemma restoreList_ok:
  assumes "restoreList (Some its) l w = (w', Inr u)"
  shows "db_categories w' = db_categories w \<and>
         map listView (db_lists w') = map listView (db_lists w) @ [listView l] \<and>
         map itemView (db_items w') =
           map itemView (db_items w) @
           map (\<lambda>i. (item_name i, item_category i, item_completed i, 1))
             (filter (\<lambda>i. item_listId i = list_id l) its)"
proof -
  from assms obtain w1 newList where
    c: "createList (list_name l) (list_color l) w = (w1, Inr newList)"
    and f: "forEach (restoreItem (list_id newList)) (filter (\<lambda>i. item_listId i = list_id l) its)
              (if list_archived l then archiveList (list_id newList) w1 else w1) = (w', Inr u)"
    unfolding restoreList_def by (auto elim!: andThenE simp: Let_def)
  note ok = createList_ok[OF c]
  define w2 where "w2 = (if list_archived l then archiveList (list_id newList) w1 else w1)"
  have items2: "db_items w2 = db_items w" and cats2: "db_categories w2 = db_categories w"
    using ok(2,3) by (simp_all add: w2_def archiveList_rows)
  have lists2: "map listView (db_lists w2) = map listView (db_lists w) @ [listView l]"
  proof (cases "list_archived l")
    case False
    with ok(1,5) show ?thesis by (simp add: w2_def listView_def)
  next
    case True
    have "db_lists w2 =
            db_lists w @ [newList\<lparr>list_archived := True,
                                   list_updatedAt := clock w1 (clock_reads w1)\<rparr>]"
      using True ok(1) tblUpdate_snoc_new[OF ok(4) refl]
      by (simp add: w2_def archiveList_rows)
    with ok(5) True show ?thesis by (simp add: listView_def)
  qed
  from forEach_restoreItem_ok[OF f[folded w2_def]] items2 cats2 lists2
  show ?thesis by simp
qed

lemma forEach_restoreList_ok:
  assumes "forEach (restoreList (Some its)) ls w = (w', Inr u)"
  shows "db_categories w' = db_categories w \<and>
         map listView (db_lists w') = map listView (db_lists w) @ map listView ls \<and>
         map itemView (db_items w') = map itemView (db_items w) @ restoredItemViews ls its"
  using assms
proof (induction ls arbitrary: w)
  case Nil
  then show ?case by (simp add: restoredItemViews_def)
next
  case (Cons l ls)
  from Cons.prems obtain w1 u1 where
    b: "restoreList (Some its) l w = (w1, Inr u1)"
    and r: "forEach (restoreList (Some its)) ls w1 = (w', Inr u)"
    by (rule forEach_ok_Cons)
  from restoreList_ok[OF b] Cons.IH[OF r] show ?case
    by (simp add: restoredItemViews_def)
qed

lemma forEach_restoreCategory_ok:
  assumes "forEach restoreCategory cs w = (w', Inr u)"
  shows "map categoryView (db_categories w') =
           map categoryView (db_categories w) @ regenerated (clock w) (clock_reads w) cs"
  using assms
proof (induction cs arbitrary: w)
  case Nil
  then show ?case by simp
next
  case (Cons c cs)
  from Cons.prems obtain w1 u1 where
    b: "restoreCategory c w = (w1, Inr u1)"
    and r: "forEach restoreCategory cs w1 = (w', Inr u)"
    by (rule forEach_ok_Cons)
  from b obtain icon created where
    cc: "createCategory (cat_name c) icon w = (w1, Inr created)"
    unfolding restoreCategory_def by (auto elim!: andThenE)
  from createCategory_ok[OF cc] Cons.IH[OF r] show ?case by simp
qed

text \<open>The loop over lists leaves the categories alone, whatever it is given as items.\<close>

lemma createList_categories: "db_categories (fst (createList n c w)) = db_categories w"
  by (simp add: createList_def listsDB_create_def andThen_def tblAdd_def dateNow_def uuidv4_def
      Let_def)

lemma createItem_categories: "db_categories (fst (createItem l n c q u w)) = db_categories w"
  by (simp add: createItem_def itemsDB_create_def andThen_def tblAdd_def dateNow_def uuidv4_def
      Let_def)

lemma restoreItem_categories: "db_categories (fst (restoreItem l i w)) = db_categories w"
  unfolding restoreItem_def
  by (rule andThen_frame) (simp_all add: createItem_categories toggleItemComplete_rows)

lemma forEach_restoreItem_categories:
  "db_categories (fst (forEach (restoreItem l) its w)) = db_categories w"
  by (rule forEach_frame) (rule restoreItem_categories)

lemma restoreList_categories: "db_categories (fst (restoreList its l w)) = db_categories w"
  unfolding restoreList_def
  by (rule andThen_frame)
     (simp_all add: createList_categories archiveList_rows Let_def forEach_restoreItem_categories
        split: option.splits)

lemma forEach_restoreList_categories:
  "db_categories (fst (forEach (restoreList its) ls w)) = db_categories w"
  by (rule forEach_frame) (rule restoreList_categories)

text \<open>The whole restore, when it completes.\<close>

lemma restoreAll_stages:
  assumes "restoreAll b w = (w', Inr u)"
  obtains cs ps ls w2 w3 w4 u2 u3 u4 where
    "bk_customCategories b = Some cs" and "bk_products b = Some ps" and "bk_lists b = Some ls"
    and "forEach restoreCategory cs w = (w2, Inr u2)"
    and "forEach restoreProduct ps w2 = (w3, Inr u3)"
    and "forEach (restoreList (bk_items b)) ls w3 = (w4, Inr u4)"
    and "w' = restoreSettings b w4"
  using assms unfolding restoreAll_def by (auto elim!: andThenE split: option.splits)

lemma restoreAll_rows:
  assumes "restoreAll b w = (w', Inr u)"
    and "bk_lists b = Some ls" and "bk_items b = Some its"
  shows "map listView (db_lists w') = map listView (db_lists w) @ map listView ls"
    and "map itemView (db_items w') = map itemView (db_items w) @ restoredItemViews ls its"
proof -
  from assms(1) obtain cs ps ls' w2 w3 w4 u2 u3 u4 where
    "bk_lists b = Some ls'"
    and c: "forEach restoreCategory cs w = (w2, Inr u2)"
    and p: "forEach restoreProduct ps w2 = (w3, Inr u3)"
    and l': "forEach (restoreList (bk_items b)) ls' w3 = (w4, Inr u4)"
    and w': "w' = restoreSettings b w4"
    by (rule restoreAll_stages)
  with assms(2,3) have l: "forEach (restoreList (Some its)) ls w3 = (w4, Inr u4)" by simp
  from forEach_restoreCategory_rows[of cs w] c
  have r2: "db_lists w2 = db_lists w" "db_items w2 = db_items w" by simp_all
  from forEach_restoreProduct_rows[of ps w2] p
  have r3: "db_lists w3 = db_lists w2" "db_items w3 = db_items w2" by simp_all
  note r4 = forEach_restoreList_ok[OF l]
  show "map listView (db_lists w') = map listView (db_lists w) @ map listView ls"
    using w' r2 r3 r4 by (simp add: restoreSettings_rows)
  show "map itemView (db_items w') = map itemView (db_items w) @ restoredItemViews ls its"
    using w' r2 r3 r4 by (simp add: restoreSettings_rows)
qed

lemma restoreAll_categories:
  assumes "restoreAll b w = (w', Inr u)" and "bk_customCategories b = Some cs"
  shows "map categoryView (db_categories w') =
           map categoryView (db_categories w) @ regenerated (clock w) (clock_reads w) cs"
    and "set (st_customCategories w') = set (db_categories w')"
proof -
  from assms(1) obtain cs' ps ls w2 w3 w4 u2 u3 u4 where
    "bk_customCategories b = Some cs'"
    and c': "forEach restoreCategory cs' w = (w2, Inr u2)"
    and p: "forEach restoreProduct ps w2 = (w3, Inr u3)"
    and l: "forEach (restoreList (bk_items b)) ls w3 = (w4, Inr u4)"
    and w': "w' = restoreSettings b w4"
    by (rule restoreAll_stages)
  with assms(2) have c: "forEach restoreCategory cs w = (w2, Inr u2)" by simp
  from forEach_restoreProduct_rows[of ps w2] p
  have r3: "db_categories w3 = db_categories w2" by simp
  from forEach_restoreList_categories[of "bk_items b" ls w3] l
  have r4: "db_categories w4 = db_categories w3" by simp
  note c2 = forEach_restoreCategory_ok[OF c]
  show "map categoryView (db_categories w') =
           map categoryView (db_categories w) @ regenerated (clock w) (clock_reads w) cs"
    using w' r3 r4 c2 by (simp add: restoreSettings_rows)
  show "set (st_customCategories w') = set (db_categories w')"
    using w' by (simp add: restoreSettings_rows)
qed

lemma importBackup_ok:
  assumes "importBackup b merge w = (w', Inr u)"
  shows "restoreAll b (if \<not> merge then clearExisting w else w) = (w', Inr u)"
  using assms by (auto simp: importBackup_def split: sum.splits if_splits)

section \<open>Claims about validation\<close>

text \<open>
  C3. \<^verbatim>\<open>validateBackup({version: "1.0.0"})\<close> is not valid and reports five different
  errors, one for each field that is missing. But \<^verbatim>\<open>validateBackup\<close> does not return
  for every candidate: on a version that is truthy and not a string, the call
  \<^verbatim>\<open>backup.version.startsWith('1.')\<close> throws a TypeError. For \<^verbatim>\<open>{version: 1}\<close> the
  five errors collected before are lost with it; for a candidate with the version 1 and
  every other field in place the error list is empty and still no result says so.
\<close>

theorem validate_throws_on_number_version:
  "validateBackup (JObj [(''version'', JStr ''1.0.0'')]) =
     Inr \<lparr>valid = False,
          errors = [''Missing or invalid timestamp field'', ''Missing or invalid lists array'',
                    ''Missing or invalid items array'',
                    ''Missing or invalid customCategories array'',
                    ''Missing or invalid products array'']\<rparr> \<and>
   validateBackup (JObj [(''version'', JNum 1)]) = Inl TypeError \<and>
   validateBackup
     (JObj [(''version'', JNum 1), (''timestamp'', JNum 1500), (''lists'', JArr []),
            (''items'', JArr []), (''customCategories'', JArr []), (''products'', JArr [])]) =
     Inl TypeError"
  by (simp add: validateBackup_def)

theorem validate_throws_on_number_version_witness:
  "validateBackup (JObj [(''version'', JNum 1)]) = Inl TypeError"
  using validate_throws_on_number_version by blast

text \<open>
  What \<^verbatim>\<open>validateBackup\<close> does when it returns. For a candidate that is an object
  the error list is the concatenation of what each check contributes by itself, in the
  order of the checks; \<open>valid\<close> is true exactly when the error list is empty; and a
  snapshot of the type \<^verbatim>\<open>Partial<BackupData>\<close> always gets a result.
\<close>

theorem validate_accumulates:
  "validateBackup (JObj [(''version'', JStr ''1.0.0'')]) =
     Inr \<lparr>valid = False,
          errors = [''Missing or invalid timestamp field'', ''Missing or invalid lists array'',
                    ''Missing or invalid items array'',
                    ''Missing or invalid customCategories array'',
                    ''Missing or invalid products array'']\<rparr> \<and>
   distinct [''Missing or invalid timestamp field'', ''Missing or invalid lists array'',
             ''Missing or invalid items array'', ''Missing or invalid customCategories array'',
             ''Missing or invalid products array''] \<and>
   (validateBackup d = Inr r \<longrightarrow> (valid r \<longleftrightarrow> errors r = [])) \<and>
   (validateBackup (JObj kvs) = Inr r \<longrightarrow>
      errors r =
        (if \<not> truthy (getProp (JObj kvs) ''version'') then [''Missing version field''] else []) @
        (if \<not> typeofNumber (getProp (JObj kvs) ''timestamp'')
         then [''Missing or invalid timestamp field''] else []) @
        (if \<not> isArray (getProp (JObj kvs) ''lists'')
         then [''Missing or invalid lists array''] else []) @
        (if \<not> isArray (getProp (JObj kvs) ''items'')
         then [''Missing or invalid items array''] else []) @
        (if \<not> isArray (getProp (JObj kvs) ''customCategories'')
         then [''Missing or invalid customCategories array''] else []) @
        (if \<not> isArray (getProp (JObj kvs) ''products'')
         then [''Missing or invalid products array''] else []) @
        (case getProp (JObj kvs) ''version'' of
           JStr v \<Rightarrow> if v \<noteq> [] \<and> \<not> startsWith v ''1.''
                     then [''Incompatible backup version: '' @ v] else []
         | _ \<Rightarrow> []))"
proof -
  have 1: "validateBackup (JObj [(''version'', JStr ''1.0.0'')]) =
     Inr \<lparr>valid = False,
          errors = [''Missing or invalid timestamp field'', ''Missing or invalid lists array'',
                    ''Missing or invalid items array'',
                    ''Missing or invalid customCategories array'',
                    ''Missing or invalid products array'']\<rparr>"
    by (simp add: validateBackup_def)
  have 2: "distinct [''Missing or invalid timestamp field'', ''Missing or invalid lists array'',
             ''Missing or invalid items array'', ''Missing or invalid customCategories array'',
             ''Missing or invalid products array'']"
    by simp
  have 3: "validateBackup d = Inr r \<longrightarrow> (valid r \<longleftrightarrow> errors r = [])"
    using validateBackup_valid_iff by blast
  have 4: "validateBackup (JObj kvs) = Inr r \<longrightarrow>
      errors r =
        (if \<not> truthy (getProp (JObj kvs) ''version'') then [''Missing version field''] else []) @
        (if \<not> typeofNumber (getProp (JObj kvs) ''timestamp'')
         then [''Missing or invalid timestamp field''] else []) @
        (if \<not> isArray (getProp (JObj kvs) ''lists'')
         then [''Missing or invalid lists array''] else []) @
        (if \<not> isArray (getProp (JObj kvs) ''items'')
         then [''Missing or invalid items array''] else []) @
        (if \<not> isArray (getProp (JObj kvs) ''customCategories'')
         then [''Missing or invalid customCategories array''] else []) @
        (if \<not> isArray (getProp (JObj kvs) ''products'')
         then [''Missing or invalid products array''] else []) @
        (case getProp (JObj kvs) ''version'' of
           JStr v \<Rightarrow> if v \<noteq> [] \<and> \<not> startsWith v ''1.''
                     then [''Incompatible backup version: '' @ v] else []
         | _ \<Rightarrow> [])"
    unfolding validateBackup_def Let_def
    by (cases "getProp (JObj kvs) ''version''") (auto split: if_splits)
  from 1 2 3 4 show ?thesis by blast
qed

theorem validate_accumulates_witness:
  "validateBackup (jsOfBackup spicesBackup) = Inr \<lparr>valid = True, errors = []\<rparr> \<and>
   (valid \<lparr>valid = True, errors = []\<rparr> \<longleftrightarrow> errors \<lparr>valid = True, errors = []\<rparr> = []) \<and>
   validateBackup (JObj [(''version'', JStr ''2.0.0''), (''timestamp'', JNum 1500), (''lists'', JNull)]) =
     Inr \<lparr>valid = False,
          errors = [''Missing or invalid lists array'', ''Missing or invalid items array'',
                    ''Missing or invalid customCategories array'',
                    ''Missing or invalid products array'',
                    ''Incompatible backup version: 2.0.0'']\<rparr> \<and>
   [''Missing or invalid lists array'', ''Missing or invalid items array'',
    ''Missing or invalid customCategories array'', ''Missing or invalid products array'',
    ''Incompatible backup version: 2.0.0''] =
     [] @ [] @ [''Missing or invalid lists array''] @ [''Missing or invalid items array''] @
     [''Missing or invalid customCategories array''] @ [''Missing or invalid products array''] @
     [''Incompatible backup version: 2.0.0'']"
proof -
  let ?kvs = "[(''version'', JStr ''2.0.0''), (''timestamp'', JNum 1500), (''lists'', JNull)]"
  let ?r = "\<lparr>valid = False,
          errors = [''Missing or invalid lists array'', ''Missing or invalid items array'',
                    ''Missing or invalid customCategories array'',
                    ''Missing or invalid products array'',
                    ''Incompatible backup version: 2.0.0'']\<rparr>"
  have a: "validateBackup (JObj ?kvs) = Inr ?r"
    by code_simp
  have b: "validateBackup (jsOfBackup spicesBackup) = Inr \<lparr>valid = True, errors = []\<rparr>"
    by code_simp
  from validate_accumulates[of "jsOfBackup spicesBackup" "\<lparr>valid = True, errors = []\<rparr>"] b
  have c: "valid \<lparr>valid = True, errors = []\<rparr> \<longleftrightarrow> errors \<lparr>valid = True, errors = []\<rparr> = []"
    by blast
  from validate_accumulates[where kvs = "?kvs" and r = "?r"] a
  have "errors ?r =
        (if \<not> truthy (getProp (JObj ?kvs) ''version'') then [''Missing version field''] else []) @
        (if \<not> typeofNumber (getProp (JObj ?kvs) ''timestamp'')
         then [''Missing or invalid timestamp field''] else []) @
        (if \<not> isArray (getProp (JObj ?kvs) ''lists'')
         then [''Missing or invalid lists array''] else []) @
        (if \<not> isArray (getProp (JObj ?kvs) ''items'')
         then [''Missing or invalid items array''] else []) @
        (if \<not> isArray (getProp (JObj ?kvs) ''customCategories'')
         then [''Missing or invalid customCategories array''] else []) @
        (if \<not> isArray (getProp (JObj ?kvs) ''products'')
         then [''Missing or invalid products array''] else []) @
        (case getProp (JObj ?kvs) ''version'' of
           JStr v \<Rightarrow> if v \<noteq> [] \<and> \<not> startsWith v ''1.''
                     then [''Incompatible backup version: '' @ v] else []
         | _ \<Rightarrow> [])"
    by blast
  then have d: "[''Missing or invalid lists array'', ''Missing or invalid items array'',
    ''Missing or invalid customCategories array'', ''Missing or invalid products array'',
    ''Incompatible backup version: 2.0.0''] =
     [] @ [] @ [''Missing or invalid lists array''] @ [''Missing or invalid items array''] @
     [''Missing or invalid customCategories array''] @ [''Missing or invalid products array''] @
     [''Incompatible backup version: 2.0.0'']"
    by simp
  from a b c d show ?thesis by blast
qed

section \<open>Claims about importBackup\<close>

text \<open>
  C2. \<^verbatim>\<open>validateBackup\<close> returns a result for every snapshot of the type
  \<^verbatim>\<open>Partial<BackupData>\<close>. When it reports a snapshot as not valid, \<^verbatim>\<open>importBackup\<close> throws
  an Error whose message is "Invalid backup: " followed by the validation errors joined
  with ", ", and the state it leaves is the state it found: database, localStorage and
  stores. When the snapshot is reported valid, \<^verbatim>\<open>importBackup\<close> throws no such Error
  (a failure while restoring is a ConstraintError or a TypeError).
\<close>

theorem import_validates_first:
  "(\<exists>r. validateBackup (jsOfBackup backupData) = Inr r) \<and>
   (validateBackup (jsOfBackup backupData) = Inr validation \<and> \<not> valid validation \<longrightarrow>
      importBackup backupData merge w =
        (w, Inl (Error (''Invalid backup: '' @ joinWith '', '' (errors validation))))) \<and>
   (validateBackup (jsOfBackup backupData) = Inr validation \<and> valid validation \<longrightarrow>
      snd (importBackup backupData merge w) \<noteq> Inl (Error message))"
proof -
  have 0: "\<exists>r. validateBackup (jsOfBackup backupData) = Inr r"
    by (rule validateBackup_typed_returns)
  have 1: "validateBackup (jsOfBackup backupData) = Inr validation \<and> \<not> valid validation \<longrightarrow>
      importBackup backupData merge w =
        (w, Inl (Error (''Invalid backup: '' @ joinWith '', '' (errors validation))))"
    by (simp add: importBackup_def)
  have 2: "validateBackup (jsOfBackup backupData) = Inr validation \<and> valid validation \<longrightarrow>
      snd (importBackup backupData merge w) \<noteq> Inl (Error message)"
    by (simp add: importBackup_def restoreAll_error)
  from 0 1 2 show ?thesis by blast
qed

theorem import_validates_first_witness:
  "validateBackup (jsOfBackup brokenBackup) =
     Inr \<lparr>valid = False,
          errors = [''Missing or invalid lists array'', ''Incompatible backup version: 2.0.0'']\<rparr> \<and>
   importBackup brokenBackup False spicesWorld =
     (spicesWorld,
      Inl (Error ''Invalid backup: Missing or invalid lists array, Incompatible backup version: 2.0.0'')) \<and>
   validateBackup (jsOfBackup spicesBackup) = Inr \<lparr>valid = True, errors = []\<rparr> \<and>
   snd (importBackup spicesBackup False spicesWorld) = Inr ()"
proof -
  have a: "validateBackup (jsOfBackup brokenBackup) =
     Inr \<lparr>valid = False,
          errors = [''Missing or invalid lists array'', ''Incompatible backup version: 2.0.0'']\<rparr>"
    by code_simp
  have b: "validateBackup (jsOfBackup spicesBackup) = Inr \<lparr>valid = True, errors = []\<rparr>"
    by code_simp
  have j: "''Invalid backup: '' @ joinWith '', ''
             [''Missing or invalid lists array'', ''Incompatible backup version: 2.0.0''] =
           ''Invalid backup: Missing or invalid lists array, Incompatible backup version: 2.0.0''"
    by simp
  from import_validates_first[of brokenBackup
      "\<lparr>valid = False,
        errors = [''Missing or invalid lists array'', ''Incompatible backup version: 2.0.0'']\<rparr>"
      False spicesWorld] a
  have c: "importBackup brokenBackup False spicesWorld =
     (spicesWorld,
      Inl (Error (''Invalid backup: '' @ joinWith '', ''
         [''Missing or invalid lists array'', ''Incompatible backup version: 2.0.0''])))"
    by simp
  have d: "snd (importBackup spicesBackup False spicesWorld) = Inr ()"
    by code_simp
  from a b c d j show ?thesis by simp
qed

text \<open>
  C10. When the snapshot's \<^verbatim>\<open>categoryOrder\<close> is the empty list, \<^verbatim>\<open>importBackup\<close>
  leaves the category order saved in localStorage as it was, whether it merges or
  replaces and whether it completes or fails. The order held by the store is not cleared
  either: it stays as it was when the import fails, and after a completed import it is
  the saved order when there is one (the stores are loaded again at the end of the
  import) and the order it was when none is saved.
\<close>

theorem import_empty_order_keeps_saved_order:
  assumes "bk_categoryOrder backupData = Some []"
  shows "ls_categoryOrder (fst (importBackup backupData merge w)) = ls_categoryOrder w \<and>
         st_categoryOrder (fst (importBackup backupData merge w)) =
           (if snd (importBackup backupData merge w) = Inr () then
              (case ls_categoryOrder w of
                 None \<Rightarrow> st_categoryOrder w
               | Some savedOrder \<Rightarrow> savedOrder)
            else st_categoryOrder w)"
proof (cases "validateBackup (jsOfBackup backupData)")
  case (Inl e)
  then show ?thesis by (simp add: importBackup_def)
next
  case (Inr validation)
  show ?thesis
  proof (cases "valid validation")
    case False
    with Inr show ?thesis by (simp add: importBackup_def)
  next
    case True
    define w1 where "w1 = (if \<not> merge then clearExisting w else w)"
    obtain w' res where r: "restoreAll backupData w1 = (w', res)"
      by (cases "restoreAll backupData w1")
    have "orderOf w1 = orderOf w"
      by (simp add: w1_def clearExisting_order)
    then have "ls_categoryOrder w1 = ls_categoryOrder w"
      and "st_categoryOrder w1 = st_categoryOrder w"
      by (simp_all add: orderOf_def)
    with restoreAll_order[OF assms r] have
      "orderOf w' =
         (ls_categoryOrder w,
          if res = Inr () then
            (case ls_categoryOrder w of None \<Rightarrow> st_categoryOrder w | Some savedOrder \<Rightarrow> savedOrder)
          else st_categoryOrder w)"
      by (simp split: option.splits)
    moreover from Inr True r have "importBackup backupData merge w = (w', res)"
      by (simp add: importBackup_def w1_def)
    ultimately show ?thesis by (simp add: orderOf_def)
  qed
qed

theorem import_empty_order_keeps_saved_order_witness:
  "bk_categoryOrder spicesBackup = Some [] \<and>
   ls_categoryOrder spicesWorld = Some [''dairy'', ''produce''] \<and>
   snd (importBackup spicesBackup False spicesWorld) = Inr () \<and>
   ls_categoryOrder (fst (importBackup spicesBackup False spicesWorld)) =
     Some [''dairy'', ''produce''] \<and>
   st_categoryOrder (fst (importBackup spicesBackup False spicesWorld)) = [''dairy'', ''produce'']"
proof -
  have h: "bk_categoryOrder spicesBackup = Some []" by (simp add: spicesBackup_def)
  have l: "ls_categoryOrder spicesWorld = Some [''dairy'', ''produce'']"
    by (simp add: spicesWorld_def)
  have d: "snd (importBackup spicesBackup False spicesWorld) = Inr ()" by code_simp
  from import_empty_order_keeps_saved_order[OF h, of False spicesWorld] l d
  show ?thesis using h by simp
qed

section \<open>Claim about the category change\<close>

text \<open>
  C8. When the item \<open>itemId\<close> is found in the list of the view, changing its category
  saves the preference under the normalized name of the item, in the store and in the
  database, and every item in the database and every item held by the items store, in
  whatever list, whose normalized name is that name has the new category afterwards. No
  item is added, removed or renamed; and where the ids of the database rows are
  distinct, the rows with another normalized name are not changed at all.
\<close>

theorem change_category_fans_out:
  assumes "find (\<lambda>i. item_id i = itemId) (getItemsByListId listId w) = Some item"
  shows
    "st_preferences (handleChangeCategory listId itemId newCategory w)
        (normalizeItemName (item_name item)) = Some newCategory \<and>
     (\<exists>p\<in>set (db_categoryPreferences (handleChangeCategory listId itemId newCategory w)).
        pref_itemName p = normalizeItemName (item_name item) \<and> pref_category p = newCategory) \<and>
     (\<forall>p\<in>set (db_categoryPreferences (handleChangeCategory listId itemId newCategory w)).
        pref_itemName p = normalizeItemName (item_name item) \<longrightarrow> pref_category p = newCategory) \<and>
     (\<forall>i\<in>set (db_items (handleChangeCategory listId itemId newCategory w)).
        normalizeItemName (item_name i) = normalizeItemName (item_name item) \<longrightarrow>
        item_category i = newCategory) \<and>
     (\<forall>l xs. st_items (handleChangeCategory listId itemId newCategory w) l = Some xs \<longrightarrow>
        (\<forall>i\<in>set xs. normalizeItemName (item_name i) = normalizeItemName (item_name item) \<longrightarrow>
           item_category i = newCategory)) \<and>
     map item_name (db_items (handleChangeCategory listId itemId newCategory w)) =
       map item_name (db_items w) \<and>
     map item_id (db_items (handleChangeCategory listId itemId newCategory w)) =
       map item_id (db_items w) \<and>
     (\<forall>l. map_option (map item_name) (st_items (handleChangeCategory listId itemId newCategory w) l) =
          map_option (map item_name) (st_items w l)) \<and>
     (distinct (map item_id (db_items w)) \<longrightarrow>
        db_items (handleChangeCategory listId itemId newCategory w) =
          map (\<lambda>i. if normalizeItemName (item_name i) = normalizeItemName (item_name item)
                    then i\<lparr>item_category := newCategory\<rparr> else i) (db_items w))"
proof -
  let ?n = "normalizeItemName (item_name item)"
  let ?f = "\<lambda>i. i\<lparr>item_category := newCategory\<rparr>"
  let ?w1 = "savePreference (item_name item) newCategory w"
  let ?w' = "handleChangeCategory listId itemId newCategory w"
  let ?ids = "set (map item_id (filter (\<lambda>i. normalizeItemName (item_name i) = ?n) (db_items w)))"
  have w': "?w' = fst (updateItemsByName (item_name item) ?f ?w1)"
    by (rule handleChangeCategory_found[OF assms])
  have db: "db_items ?w' = map (\<lambda>x. if item_id x \<in> ?ids then ?f x else x) (db_items w)"
    unfolding w' updateItemsByName_db
    by (subst itemsDB_updateByName_rows) (simp_all add: savePreference_items normalizeItemName_def)
  have st: "st_items ?w' =
      (\<lambda>l. map_option (map (\<lambda>i. if normalizeItemName (item_name i) = ?n then ?f i else i))
              (st_items w l))"
    unfolding w' updateItemsByName_st by (simp add: savePreference_items normalizeItemName_def)
  have 1: "st_preferences ?w' ?n = Some newCategory"
    unfolding w' by (simp add: updateItemsByName_prefs savePreference_st)
  have 2: "\<exists>p\<in>set (db_categoryPreferences ?w'). pref_itemName p = ?n \<and> pref_category p = newCategory"
    unfolding w' updateItemsByName_prefs by (rule savePreference_db(1))
  have 3: "\<forall>p\<in>set (db_categoryPreferences ?w'). pref_itemName p = ?n \<longrightarrow> pref_category p = newCategory"
    unfolding w' updateItemsByName_prefs using savePreference_db(2) by blast
  have 4: "\<forall>i\<in>set (db_items ?w'). normalizeItemName (item_name i) = ?n \<longrightarrow> item_category i = newCategory"
  proof (intro ballI impI)
    fix i assume i: "i \<in> set (db_items ?w')" and n: "normalizeItemName (item_name i) = ?n"
    from i db obtain x where x: "x \<in> set (db_items w)"
      and ix: "i = (if item_id x \<in> ?ids then ?f x else x)" by auto
    from ix have "item_name i = item_name x" by simp
    with n x have "item_id x \<in> ?ids" by auto
    with ix show "item_category i = newCategory" by simp
  qed
  have 5: "\<forall>l xs. st_items ?w' l = Some xs \<longrightarrow>
        (\<forall>i\<in>set xs. normalizeItemName (item_name i) = ?n \<longrightarrow> item_category i = newCategory)"
    unfolding st by auto
  have 6: "map item_name (db_items ?w') = map item_name (db_items w)"
    unfolding db by (induction "db_items w") auto
  have 7: "map item_id (db_items ?w') = map item_id (db_items w)"
    unfolding db by (induction "db_items w") auto
  have 8: "\<forall>l. map_option (map item_name) (st_items ?w' l) = map_option (map item_name) (st_items w l)"
  proof
    fix l
    have "map item_name (map (\<lambda>i. if normalizeItemName (item_name i) = ?n then ?f i else i) xs) =
          map item_name xs" for xs
      by (induction xs) auto
    then show "map_option (map item_name) (st_items ?w' l) = map_option (map item_name) (st_items w l)"
      unfolding st by (cases "st_items w l") simp_all
  qed
  have 9: "distinct (map item_id (db_items w)) \<longrightarrow>
        db_items ?w' = map (\<lambda>i. if normalizeItemName (item_name i) = ?n then ?f i else i) (db_items w)"
  proof
    assume d: "distinct (map item_id (db_items w))"
    show "db_items ?w' = map (\<lambda>i. if normalizeItemName (item_name i) = ?n then ?f i else i) (db_items w)"
      unfolding db
    proof (rule map_cong[OF refl])
      fix x assume "x \<in> set (db_items w)"
      then have "item_id x \<in> ?ids \<longleftrightarrow> normalizeItemName (item_name x) = ?n"
        by (rule matching_ids[OF d])
      then show "(if item_id x \<in> ?ids then ?f x else x) =
                 (if normalizeItemName (item_name x) = ?n then ?f x else x)"
        by (simp only:)
    qed
  qed
  from 1 2 3 4 5 6 7 8 9 show ?thesis by blast
qed

theorem change_category_fans_out_witness:
  "find (\<lambda>i. item_id i = ''I1'') (getItemsByListId ''L1'' milkWorld) =
     Some (milkItem ''I1'' ''L1'' ''Milk'' ''dairy'') \<and>
   distinct (map item_id (db_items milkWorld)) \<and>
   map item_listId (db_items milkWorld) = [''L1'', ''L1'', ''L2''] \<and>
   map item_name (db_items milkWorld) = [''Milk'', ''Bread'', '' milk ''] \<and>
   map item_category (db_items milkWorld) = [''dairy'', ''bakery'', ''dairy''] \<and>
   map item_category (db_items (handleChangeCategory ''L1'' ''I1'' ''beverages'' milkWorld)) =
     [''beverages'', ''bakery'', ''beverages''] \<and>
   map_option (map item_category)
     (st_items (handleChangeCategory ''L1'' ''I1'' ''beverages'' milkWorld) ''L2'') =
     Some [''beverages''] \<and>
   st_preferences (handleChangeCategory ''L1'' ''I1'' ''beverages'' milkWorld) ''milk'' =
     Some ''beverages''"
proof -
  have h: "find (\<lambda>i. item_id i = ''I1'') (getItemsByListId ''L1'' milkWorld) =
     Some (milkItem ''I1'' ''L1'' ''Milk'' ''dairy'')"
    by code_simp
  have d: "distinct (map item_id (db_items milkWorld))" by code_simp
  have n: "normalizeItemName (item_name (milkItem ''I1'' ''L1'' ''Milk'' ''dairy'')) = ''milk''"
    by code_simp
  have a: "map item_listId (db_items milkWorld) = [''L1'', ''L1'', ''L2'']" by code_simp
  have b: "map item_name (db_items milkWorld) = [''Milk'', ''Bread'', '' milk '']" by code_simp
  have c: "map item_category (db_items milkWorld) = [''dairy'', ''bakery'', ''dairy'']" by code_simp
  have e: "map item_category
             (map (\<lambda>i. if normalizeItemName (item_name i) = ''milk''
                       then i\<lparr>item_category := ''beverages''\<rparr> else i) (db_items milkWorld)) =
           [''beverages'', ''bakery'', ''beverages'']"
    by code_simp
  have s: "map_option (map item_category)
     (st_items (handleChangeCategory ''L1'' ''I1'' ''beverages'' milkWorld) ''L2'') =
     Some [''beverages'']"
    by code_simp
  from change_category_fans_out[OF h, of "''beverages''"] d n
  have p: "st_preferences (handleChangeCategory ''L1'' ''I1'' ''beverages'' milkWorld) ''milk'' =
     Some ''beverages''"
    and r: "db_items (handleChangeCategory ''L1'' ''I1'' ''beverages'' milkWorld) =
          map (\<lambda>i. if normalizeItemName (item_name i) = ''milk''
                    then i\<lparr>item_category := ''beverages''\<rparr> else i) (db_items milkWorld)"
    by simp_all
  from h d a b c e s p r show ?thesis by simp
qed

section \<open>Claims about what an import restores\<close>

text \<open>
  C1. \<open>gramsBackup\<close> holds one archived list and one completed item of that list,
  three of it, in grams. Imported into the empty state, the import completes, and the
  database then holds one list with the name, the color and the archived flag of the
  snapshot list, and one item, filed under the new list, with the name, the category and
  the completed flag of the snapshot item, but with the quantity 1 and without a unit.
  \<^verbatim>\<open>importBackup\<close> calls \<^verbatim>\<open>createItem(newList.id, item.name, item.category)\<close> and so
  leaves the quantity to the default of \<^verbatim>\<open>createItem\<close>, while the import of a single
  list (\<^verbatim>\<open>handleImport\<close> in views/ListsView) passes \<^verbatim>\<open>item.quantity\<close> and
  \<^verbatim>\<open>item.unit\<close> to the same function.
\<close>

theorem import_drops_quantity:
  "validateBackup (jsOfBackup gramsBackup) = Inr \<lparr>valid = True, errors = []\<rparr> \<and>
   bk_lists gramsBackup = Some [spicesList] \<and>
   bk_items gramsBackup = Some [gramsItem] \<and>
   listView spicesList = (''Weekly'', Some ''red'', True) \<and>
   item_listId gramsItem = list_id spicesList \<and>
   itemView gramsItem = (''Saffron'', ''custom_spices_1000'', True, 3) \<and>
   item_unit gramsItem = Some ''g'' \<and>
   snd (importBackup gramsBackup False emptyWorld) = Inr () \<and>
   db_lists (fst (importBackup gramsBackup False emptyWorld)) =
     [\<lparr>list_id = ''uuid-0'', list_name = ''Weekly'', list_createdAt = 2001,
       list_updatedAt = 2003, list_archived = True, list_color = Some ''red''\<rparr>] \<and>
   db_items (fst (importBackup gramsBackup False emptyWorld)) =
     [\<lparr>item_id = ''uuid-1'', item_listId = ''uuid-0'', item_name = ''Saffron'',
       item_quantity = 1, item_unit = None, item_category = ''custom_spices_1000'',
       item_completed = True, item_addedAt = 2005, item_completedAt = Some 2006,
       item_barcode = None, item_notes = None\<rparr>]"
  by code_simp

theorem import_drops_quantity_witness:
  "item_quantity gramsItem = 3 \<and> item_unit gramsItem = Some ''g'' \<and>
   map item_quantity (db_items (fst (importBackup gramsBackup False emptyWorld))) = [1] \<and>
   map item_unit (db_items (fst (importBackup gramsBackup False emptyWorld))) = [None]"
  using import_drops_quantity by (simp add: itemView_def)

text \<open>
  What a completed import leaves in the database, in general, merging or not. The lists
  are the ones the destructive phase kept and one new list for every list of the
  snapshot, with the name, the color and the archived flag of that list; the items are
  the ones kept and, for every list of the snapshot and every item of the snapshot with
  the id of that list, one new item with the name, the category and the completed flag of
  that item and with the quantity 1.
\<close>

theorem import_restores_views:
  assumes "importBackup backupData merge w = (w', Inr ())"
    and "bk_lists backupData = Some snapshotLists"
    and "bk_items backupData = Some snapshotItems"
  shows "mset (map listView (db_lists w')) =
           mset (map listView (keptLists merge w)) + mset (map listView snapshotLists) \<and>
         mset (map itemView (db_items w')) =
           mset (map itemView (keptItems merge w)) +
           mset (restoredItemViews snapshotLists snapshotItems)"
proof -
  define w1 where "w1 = (if \<not> merge then clearExisting w else w)"
  have r: "restoreAll backupData w1 = (w', Inr ())"
    unfolding w1_def by (rule importBackup_ok[OF assms(1)])
  have k: "db_lists w1 = keptLists merge w" "db_items w1 = keptItems merge w"
    by (simp_all add: w1_def clearExisting_db keptLists_def keptItems_def)
  from restoreAll_rows[OF r assms(2,3)] k
  have "map listView (db_lists w') = map listView (keptLists merge w) @ map listView snapshotLists"
    and "map itemView (db_items w') =
         map itemView (keptItems merge w) @ restoredItemViews snapshotLists snapshotItems"
    by simp_all
  then have "mset (map listView (db_lists w')) =
             mset (map listView (keptLists merge w) @ map listView snapshotLists)"
    and "mset (map itemView (db_items w')) =
         mset (map itemView (keptItems merge w) @ restoredItemViews snapshotLists snapshotItems)"
    by simp_all
  then show ?thesis by simp
qed

theorem import_restores_views_witness:
  "importBackup spicesBackup False spicesWorld =
     (fst (importBackup spicesBackup False spicesWorld), Inr ()) \<and>
   bk_lists spicesBackup = Some [spicesList] \<and> bk_items spicesBackup = Some [spicesItem] \<and>
   mset (map listView (db_lists (fst (importBackup spicesBackup False spicesWorld)))) =
     mset [(''Weekly'', Some ''red'', True)] \<and>
   mset (map itemView (db_items (fst (importBackup spicesBackup False spicesWorld)))) =
     mset [(''Saffron'', ''custom_spices_1000'', True, 1)]"
proof -
  have s: "snd (importBackup spicesBackup False spicesWorld) = Inr ()" by code_simp
  have h: "importBackup spicesBackup False spicesWorld =
     (fst (importBackup spicesBackup False spicesWorld), Inr ())"
    using s by (metis prod.collapse)
  have l: "bk_lists spicesBackup = Some [spicesList]" by (simp add: spicesBackup_def)
  have i: "bk_items spicesBackup = Some [spicesItem]" by (simp add: spicesBackup_def)
  have kl: "map listView (keptLists False spicesWorld) = []" by code_simp
  have ki: "map itemView (keptItems False spicesWorld) = []" by code_simp
  have vl: "map listView [spicesList] = [(''Weekly'', Some ''red'', True)]" by code_simp
  have vi: "restoredItemViews [spicesList] [spicesItem] =
              [(''Saffron'', ''custom_spices_1000'', True, 1)]"
    by code_simp
  from import_restores_views[OF h l i] kl ki vl vi
  have "mset (map listView (db_lists (fst (importBackup spicesBackup False spicesWorld)))) =
          mset [(''Weekly'', Some ''red'', True)]"
    and "mset (map itemView (db_items (fst (importBackup spicesBackup False spicesWorld)))) =
          mset [(''Saffron'', ''custom_spices_1000'', True, 1)]"
    by simp_all
  with h l i show ?thesis by blast
qed

text \<open>
  C9, as the code has it. After a completed import the custom categories in the database
  are the ones the destructive phase kept and one new category for every custom category
  of the snapshot. The new category has the name of the snapshot category and the id
  "custom_", the lower-cased name with every run of white space replaced by "_", "_" and
  the value of \<^verbatim>\<open>Date.now()\<close> at its creation; the id recorded in the snapshot is
  not read. The ids of the categories that exist after the import are the built-in ids,
  the ids of the kept categories and these new ids: an item restored with a category id
  of the snapshot refers to an existing category exactly when that id is one of them.
\<close>

theorem import_recreates_categories:
  assumes "importBackup backupData merge w = (w', Inr ())"
    and "bk_customCategories backupData = Some snapshotCategories"
  shows "mset (map categoryView (db_categories w')) =
           mset (map categoryView (keptCategories merge w)) +
           mset (regenerated (clock w) (clock_reads w) snapshotCategories) \<and>
         set (map cat_id (allCategories w')) =
           set (map cat_id DEFAULT_CATEGORIES) \<union> set (map cat_id (keptCategories merge w)) \<union>
           set (map fst (regenerated (clock w) (clock_reads w) snapshotCategories))"
proof -
  define w1 where "w1 = (if \<not> merge then clearExisting w else w)"
  have r: "restoreAll backupData w1 = (w', Inr ())"
    unfolding w1_def by (rule importBackup_ok[OF assms(1)])
  have k: "db_categories w1 = keptCategories merge w" "clock w1 = clock w"
    "clock_reads w1 = clock_reads w"
    by (simp_all add: w1_def clearExisting_db keptCategories_def)
  from restoreAll_categories[OF r assms(2)] k
  have v: "map categoryView (db_categories w') =
           map categoryView (keptCategories merge w) @
           regenerated (clock w) (clock_reads w) snapshotCategories"
    and st: "set (st_customCategories w') = set (db_categories w')"
    by simp_all
  from v have 1: "mset (map categoryView (db_categories w')) =
           mset (map categoryView (keptCategories merge w)) +
           mset (regenerated (clock w) (clock_reads w) snapshotCategories)"
    by (metis mset_append)
  have ids: "map cat_id xs = map fst (map categoryView xs)" for xs
    by (simp add: categoryView_def)
  from v have "map cat_id (db_categories w') =
           map cat_id (keptCategories merge w) @
           map fst (regenerated (clock w) (clock_reads w) snapshotCategories)"
    by (simp add: ids del: map_map)
  then have b: "set (map cat_id (db_categories w')) =
           set (map cat_id (keptCategories merge w)) \<union>
           set (map fst (regenerated (clock w) (clock_reads w) snapshotCategories))"
    by (metis set_append)
  have a: "set (map cat_id (allCategories w')) =
           set (map cat_id DEFAULT_CATEGORIES) \<union> set (map cat_id (db_categories w'))"
    by (simp add: allCategories_def st)
  have 2: "set (map cat_id (allCategories w')) =
           set (map cat_id DEFAULT_CATEGORIES) \<union> set (map cat_id (keptCategories merge w)) \<union>
           set (map fst (regenerated (clock w) (clock_reads w) snapshotCategories))"
    unfolding a b by (rule Un_assoc[symmetric])
  from 1 2 show ?thesis by blast
qed

theorem import_recreates_categories_witness:
  "importBackup spicesBackup False spicesWorld =
     (fst (importBackup spicesBackup False spicesWorld), Inr ()) \<and>
   bk_customCategories spicesBackup = Some [spicesCategory] \<and>
   categoryView spicesCategory = (''custom_spices_1000'', ''Spices'') \<and>
   mset (map categoryView (db_categories (fst (importBackup spicesBackup False spicesWorld)))) =
     mset [(''custom_spices_2000'', ''Spices'')] \<and>
   map item_category (db_items (fst (importBackup spicesBackup False spicesWorld))) =
     [''custom_spices_1000''] \<and>
   ''custom_spices_1000'' \<notin>
     set (map cat_id (allCategories (fst (importBackup spicesBackup False spicesWorld))))"
proof -
  have s: "snd (importBackup spicesBackup False spicesWorld) = Inr ()" by code_simp
  have h: "importBackup spicesBackup False spicesWorld =
     (fst (importBackup spicesBackup False spicesWorld), Inr ())"
    using s by (metis prod.collapse)
  have c: "bk_customCategories spicesBackup = Some [spicesCategory]"
    by (simp add: spicesBackup_def)
  have v: "categoryView spicesCategory = (''custom_spices_1000'', ''Spices'')" by code_simp
  have k: "map categoryView (keptCategories False spicesWorld) = []" by code_simp
  have k': "map cat_id (keptCategories False spicesWorld) = []" by code_simp
  have g: "regenerated (clock spicesWorld) (clock_reads spicesWorld) [spicesCategory] =
             [(''custom_spices_2000'', ''Spices'')]"
    by code_simp
  have i: "map item_category (db_items (fst (importBackup spicesBackup False spicesWorld))) =
     [''custom_spices_1000'']"
    by code_simp
  have d: "''custom_spices_1000'' \<notin> set (map cat_id DEFAULT_CATEGORIES)" by code_simp
  note t = import_recreates_categories[OF h c, unfolded k k' g]
  from t have m: "mset (map categoryView (db_categories (fst (importBackup spicesBackup False spicesWorld)))) =
     mset [(''custom_spices_2000'', ''Spices'')]"
    by simp
  from t have a: "set (map cat_id (allCategories (fst (importBackup spicesBackup False spicesWorld)))) =
      set (map cat_id DEFAULT_CATEGORIES) \<union> {''custom_spices_2000''}"
    by simp
  from a d have n: "''custom_spices_1000'' \<notin>
     set (map cat_id (allCategories (fst (importBackup spicesBackup False spicesWorld))))"
    by simp
  from h c v m i n show ?thesis by blast
qed

text \<open>
  C9 as stated fails when the import merges: the custom category of the state that the
  snapshot was exported from is still there, so the restored item, whose category field
  holds the id recorded in the snapshot, refers to a category that exists after the
  import, next to the new category with the new id.
\<close>

theorem import_recreates_categories_counterexample:
  "snd (importBackup spicesBackup True spicesWorld) = Inr () \<and>
   bk_customCategories spicesBackup = Some [spicesCategory] \<and>
   cat_id spicesCategory = ''custom_spices_1000'' \<and>
   map item_id (db_items spicesWorld) = [''I1''] \<and>
   map (\<lambda>i. (item_id i, item_category i))
     (db_items (fst (importBackup spicesBackup True spicesWorld))) =
     [(''I1'', ''custom_spices_1000''), (''uuid-1'', ''custom_spices_1000'')] \<and>
   map cat_id (st_customCategories (fst (importBackup spicesBackup True spicesWorld))) =
     [''custom_spices_1000'', ''custom_spices_2000''] \<and>
   ''custom_spices_1000'' \<in>
     set (map cat_id (allCategories (fst (importBackup spicesBackup True spicesWorld))))"
  by code_simp

end
